theory Spec2Isabelle
  imports Complex_Main "HOL-Library.Sublist"
begin

section \<open>Strings of the service module\<close>

text \<open>
  A JavaScript string is a sequence of code units. The model uses \<open>string\<close>, that is
  the strings whose code units are below 256; every literal of the source is ASCII.
  The regular-expression class \<open>\s\<close>, cut down to that range, is the set of the six
  ASCII white-space characters (tab, line feed, vertical tab, form feed, carriage return,
  space) and the no-break space 160.
\<close>

definition is_space :: "char \<Rightarrow> bool" where
  "is_space c = (of_char c \<in> {9, 10, 11, 12, 13, 32, 160 :: nat})"

text \<open>\<open>String.prototype.includes\<close>: the needle occurs at some position.\<close>

fun str_includes :: "string \<Rightarrow> string \<Rightarrow> bool" where
  "str_includes [] needle = (needle = [])"
| "str_includes (c # cs) needle = (prefix needle (c # cs) \<or> str_includes cs needle)"

text \<open>
  \<open>indexOf\<close> and \<open>lastIndexOf\<close> for a one-character needle: the position of the
  first (last) occurrence, \<open>-1\<close> when there is none.
\<close>

fun indexOf :: "string \<Rightarrow> char \<Rightarrow> int" where
  "indexOf [] c = -1"
| "indexOf (x # xs) c =
     (if x = c then 0 else (let r = indexOf xs c in if r = -1 then -1 else r + 1))"

fun lastIndexOf :: "string \<Rightarrow> char \<Rightarrow> int" where
  "lastIndexOf [] c = -1"
| "lastIndexOf (x # xs) c =
     (let r = lastIndexOf xs c in
      if r \<noteq> -1 then r + 1 else if x = c then 0 else -1)"

text \<open>
  \<open>substring(start, end)\<close>: both arguments are clamped to \<open>[0, length]\<close> and swapped
  when \<open>start > end\<close>.
\<close>

definition substring :: "string \<Rightarrow> int \<Rightarrow> int \<Rightarrow> string" where
  "substring s a b =
     (let n = int (length s);
          a' = min (max a 0) n;
          b' = min (max b 0) n;
          lo = min a' b';
          hi = max a' b'
      in take (nat (hi - lo)) (drop (nat lo) s))"

text \<open>
  \<open>text.replace(/MARKER\s*/g, '')\<close> for a literal, non-empty marker: the text is
  scanned from the left; at a position where the marker starts, the marker and all the
  white space after it (the quantifier is greedy) are dropped and the scan goes on
  behind them; elsewhere the character is kept.
\<close>

function replace_marker :: "string \<Rightarrow> string \<Rightarrow> string" where
  "replace_marker m [] = []"
| "replace_marker m (c # cs) =
     (if m \<noteq> [] \<and> prefix m (c # cs)
      then replace_marker m (dropWhile is_space (drop (length m) (c # cs)))
      else c # replace_marker m cs)"
  by pat_completeness auto
termination
proof (relation "measure (\<lambda>(m, t). length t)")
  show "wf (measure (\<lambda>(m, t). length t))" by simp
next
  fix m :: string and c :: char and cs :: string
  assume "m \<noteq> [] \<and> prefix m (c # cs)"
  then have pos: "0 < length m" by simp
  have "length (dropWhile is_space (drop (length m) (c # cs)))
      \<le> length (drop (length m) (c # cs))"
    by (rule length_dropWhile_le)
  also have "\<dots> = length (c # cs) - length m" by (rule length_drop)
  also have "\<dots> < length (c # cs)" using pos by simp
  finally show "((m, dropWhile is_space (drop (length m) (c # cs))), (m, c # cs))
      \<in> measure (\<lambda>(m, t). length t)"
    by simp
next
  fix m :: string and c :: char and cs :: string
  show "((m, cs), (m, c # cs)) \<in> measure (\<lambda>(m, t). length t)" by simp
qed

text \<open>
  The first statement of \<open>cleanJsonString\<close> after the guard:
  \<open>text.replace(/```json\s*/g, '').replace(/```\s*/g, '')\<close>.
\<close>

definition strip_fences :: "string \<Rightarrow> string" where
  "strip_fences t = replace_marker ''```'' (replace_marker ''```json'' t)"

definition cleanJsonString :: "string \<Rightarrow> string" where
  "cleanJsonString t =
     (if t = [] then ''{}''
      else
        let clean = strip_fences t;
            firstOpen = indexOf clean CHR ''{'';
            lastClose = lastIndexOf clean CHR ''}''
        in if firstOpen \<noteq> -1 \<and> lastClose \<noteq> -1 \<and> lastClose > firstOpen
           then substring clean firstOpen (lastClose + 1)
           else clean)"

text \<open>
  The post-processing of \<open>ProductUserFlowDesigner\<close>. \<open>clean.replace(/^FENCE\s*/, '')\<close>
  drops the fence at the start of the text and the white space after it.
  \<open>replace(/\s*```$/, '')\<close> has no \<open>m\<close> flag, so \<open>$\<close> is the end of the text: the
  search goes through the positions from the left and the first one from which the rest
  of the text is white space followed by exactly one closing fence is where the match
  starts; the match reaches the end of the text and is dropped.
\<close>

definition replace_leading :: "string \<Rightarrow> string \<Rightarrow> string" where
  "replace_leading fence t =
     (if prefix fence t then dropWhile is_space (drop (length fence) t) else t)"

fun replace_trailing_fence :: "string \<Rightarrow> string" where
  "replace_trailing_fence [] = []"
| "replace_trailing_fence (c # cs) =
     (if dropWhile is_space (c # cs) = ''```'' then [] else c # replace_trailing_fence cs)"

text \<open>\<open>response.text || dflt\<close>: the text may be undefined, and the empty string is falsy.\<close>

definition text_or :: "string option \<Rightarrow> string \<Rightarrow> string" where
  "text_or t dflt = (case t of None \<Rightarrow> dflt | Some x \<Rightarrow> if x = [] then dflt else x)"

definition strip_mermaid_fences :: "string option \<Rightarrow> string" where
  "strip_mermaid_fences t =
     (let clean = text_or t [] in
      if prefix ''```mermaid'' clean
      then replace_trailing_fence (replace_leading ''```mermaid'' clean)
      else if prefix ''```'' clean
      then replace_trailing_fence (replace_leading ''```'' clean)
      else clean)"

section \<open>Errors of the service module\<close>

text \<open>
  What a \<open>try\<close> block of the service throws or a promise rejects with: an \<open>Error\<close>
  object, with its \<open>name\<close> and its \<open>message\<close> (\<open>getAI\<close>'s \<open>new Error\<close>, the
  rejections of the client library, the \<open>SyntaxError\<close> of \<open>JSON.parse\<close>), or a
  primitive string, which has no \<open>message\<close> property.
\<close>

datatype thrown = ErrorObj string string | Primitive string

text \<open>\<open>new Error(m)\<close>.\<close>

definition new_Error :: "string \<Rightarrow> thrown" where
  "new_Error m = ErrorObj ''Error'' m"

text \<open>\<open>e.message\<close>; \<open>None\<close> is \<open>undefined\<close>.\<close>

fun message :: "thrown \<Rightarrow> string option" where
  "message (ErrorObj n m) = Some m"
| "message (Primitive s) = None"

text \<open>
  \<open>error?.message || error?.toString() || ''\<close>. \<open>Error.prototype.toString\<close> gives the
  name when the message is empty, and a primitive string is its own \<open>toString()\<close>.
\<close>

fun error_text :: "thrown \<Rightarrow> string" where
  "error_text (ErrorObj n m) = (if m \<noteq> [] then m else n)"
| "error_text (Primitive s) = s"

text \<open>
  \<open>toLowerCase\<close> on code units below 256: the ASCII capitals and the Latin-1 capitals
  192 to 222 (but the multiplication sign 215) move up by 32.
\<close>

definition lower_char :: "char \<Rightarrow> char" where
  "lower_char c =
     (let n = (of_char c :: nat) in
      if (65 \<le> n \<and> n \<le> 90) \<or> (192 \<le> n \<and> n \<le> 222 \<and> n \<noteq> 215)
      then char_of (n + 32) else c)"

definition toLowerCase :: "string \<Rightarrow> string" where
  "toLowerCase s = map lower_char s"

text \<open>
  \<open>handleApiError\<close> of the service never returns: its value here is what it throws.
\<close>

definition handleApiError :: "thrown \<Rightarrow> thrown" where
  "handleApiError error =
     (let msg = toLowerCase (error_text error) in
      if str_includes msg ''401'' \<or> str_includes msg ''403''
         \<or> str_includes msg ''api key'' \<or> str_includes msg ''unauthenticated''
      then new_Error ''INVALID_API_KEY''
      else if str_includes msg ''429'' \<or> str_includes msg ''quota''
      then new_Error ''QUOTA_EXCEEDED''
      else if msg = ''MISSING_API_KEY''
      then new_Error ''MISSING_API_KEY''
      else error)"

section \<open>Agents\<close>

text \<open>
  The module keeps one client instance; \<open>getAI\<close> creates it on first use from the
  environment variable \<open>API_KEY\<close> and throws when the variable is unset or empty.
\<close>

record service =
  aiInstance :: bool
  API_KEY :: "string option"

definition getAI :: "service \<Rightarrow> thrown + service" where
  "getAI sv =
     (if \<not> aiInstance sv
      then (case API_KEY sv of
              None \<Rightarrow> Inl (new_Error ''MISSING_API_KEY'')
            | Some k \<Rightarrow>
                if k = [] then Inl (new_Error ''MISSING_API_KEY'')
                else Inr (sv\<lparr>aiInstance := True\<rparr>))
      else Inr sv)"

text \<open>
  JavaScript numbers as far as the program meets them, and the values of
  \<open>JSON.parse\<close>.
\<close>

datatype number = Num real | NaN

datatype json =
    JNull
  | JBool bool
  | JNum number
  | JStr string
  | JArr "json list"
  | JObj "(string \<times> json) list"

text \<open>
  The \<open>try\<close> block of \<open>IdeaRadarAgent\<close> and of \<open>DecisionGateAgent\<close>: \<open>getAI()\<close>, the
  awaited \<open>generateContent\<close> call, and \<open>JSON.parse(cleanJsonString(response.text || '{}'))\<close>.
  The call is outside the program: \<open>resp\<close> is what it settles with, \<open>Inl\<close> a rejection
  and \<open>Inr\<close> the \<open>text\<close> of the response. \<open>parse\<close> stands for \<open>JSON.parse\<close>, \<open>Inl m\<close>
  being a \<open>SyntaxError\<close> with message \<open>m\<close>.
\<close>

definition json_try_block ::
  "service \<Rightarrow> (thrown + string option) \<Rightarrow> (string \<Rightarrow> string + json) \<Rightarrow> thrown + json" where
  "json_try_block sv resp parse =
     (case getAI sv of
        Inl e \<Rightarrow> Inl e
      | Inr ai \<Rightarrow>
          (case resp of
             Inl e \<Rightarrow> Inl e
           | Inr t \<Rightarrow>
               (case parse (cleanJsonString (text_or t ''{}'')) of
                  Inl m \<Rightarrow> Inl (ErrorObj ''SyntaxError'' m)
                | Inr j \<Rightarrow> Inr j)))"

definition radar_fallback :: json where
  "radar_fallback = JObj
     [(''score'', JNum (Num 0)),
      (''decision'', JStr ''KILL''),
      (''reasoning'', JStr ''Analysis failed due to model response error. Please try again.'')]"

definition decision_fallback :: json where
  "decision_fallback = JObj
     [(''decision'', JStr ''ITERATE''),
      (''analysis'', JStr ''Error analyzing metrics. Suggesting iteration by default.'')]"

text \<open>
  The \<open>catch\<close> block the two agents share but for the fallback: \<open>handleApiError\<close>
  throws \<open>e\<close>, which is thrown on when its message is one of three names.
\<close>

definition is_key_error :: "thrown \<Rightarrow> bool" where
  "is_key_error e =
     (message e = Some ''INVALID_API_KEY'' \<or> message e = Some ''MISSING_API_KEY''
      \<or> message e = Some ''QUOTA_EXCEEDED'')"

definition json_catch_block :: "json \<Rightarrow> thrown \<Rightarrow> thrown + json" where
  "json_catch_block fallback error =
     (let e = handleApiError error in
      if is_key_error e then Inl e else Inr fallback)"

definition IdeaRadarAgent ::
  "service \<Rightarrow> (thrown + string option) \<Rightarrow> (string \<Rightarrow> string + json) \<Rightarrow> thrown + json" where
  "IdeaRadarAgent sv resp parse =
     (case json_try_block sv resp parse of
        Inr j \<Rightarrow> Inr j
      | Inl error \<Rightarrow> json_catch_block radar_fallback error)"

definition DecisionGateAgent ::
  "service \<Rightarrow> (thrown + string option) \<Rightarrow> (string \<Rightarrow> string + json) \<Rightarrow> thrown + json" where
  "DecisionGateAgent sv resp parse =
     (case json_try_block sv resp parse of
        Inr j \<Rightarrow> Inr j
      | Inl error \<Rightarrow> json_catch_block decision_fallback error)"

text \<open>
  The agents that return text pass every failure to \<open>handleApiError\<close>.
  \<open>ProductUserFlowDesigner\<close> strips the fences of the text first.
\<close>

definition text_agent :: "service \<Rightarrow> (thrown + string option) \<Rightarrow> thrown + string option" where
  "text_agent sv resp =
     (case getAI sv of
        Inl e \<Rightarrow> Inl (handleApiError e)
      | Inr ai \<Rightarrow>
          (case resp of
             Inl e \<Rightarrow> Inl (handleApiError e)
           | Inr t \<Rightarrow> Inr t))"

definition ProductUserFlowDesigner :: "service \<Rightarrow> (thrown + string option) \<Rightarrow> thrown + string" where
  "ProductUserFlowDesigner sv resp =
     (case getAI sv of
        Inl e \<Rightarrow> Inl (handleApiError e)
      | Inr ai \<Rightarrow>
          (case resp of
             Inl e \<Rightarrow> Inl (handleApiError e)
           | Inr t \<Rightarrow> Inr (strip_mermaid_fences t)))"

section \<open>The factory state\<close>

datatype AgentStatus = IDLE | THINKING | COMPLETED | FAILED | SKIPPED

record IdeaInput =
  name :: string
  targetUser :: string
  painPoint :: string
  description :: string

text \<open>
  A product result is built with \<open>prd\<close> and \<open>features\<close>; the three optional fields
  are added later by spreading the object. Spreading a \<open>null\<close> result gives an object
  without \<open>prd\<close> and \<open>features\<close>, so these are optional here too.
\<close>

record ProductResult =
  prd :: "string option"
  features :: "string list option"
  optimizations :: "string option"
  userFlow :: "string option"
  techSpec :: "string option"

record TechResult =
  stack :: string
  schema :: string
  apiSpec :: string
  fullOutput :: string

record DevResult =
  codeStructure :: string
  instructions :: string

record QAMetrics =
  users :: number
  retention :: string
  revenue :: string
  feedback :: string

text \<open>
  A stage's slot: \<open>{ status, result }\<close>, the result \<open>null\<close> until the agent has
  answered. The slot of the last stage carries the metrics as well. The results of the
  first and the last stage are what \<open>JSON.parse\<close> or the fallback gave.
\<close>

record 'r slot =
  status :: AgentStatus
  result :: "'r option"

record 'r qa_slot = "'r slot" +
  metrics :: QAMetrics

record FactoryState =
  currentStage :: int
  idea :: IdeaInput
  radar :: "json slot"
  product :: "ProductResult slot"
  tech :: "TechResult slot"
  dev :: "DevResult slot"
  qa :: "json qa_slot"

definition INITIAL_STATE :: FactoryState where
  "INITIAL_STATE =
     \<lparr>currentStage = 0,
      idea = \<lparr>name = [], targetUser = [], painPoint = [], description = []\<rparr>,
      radar = \<lparr>status = IDLE, result = None\<rparr>,
      product = \<lparr>status = IDLE, result = None\<rparr>,
      tech = \<lparr>status = IDLE, result = None\<rparr>,
      dev = \<lparr>status = IDLE, result = None\<rparr>,
      qa = \<lparr>status = IDLE, result = None,
            metrics = \<lparr>users = Num 0, retention = [], revenue = [], feedback = []\<rparr>\<rparr>\<rparr>"

section \<open>The component\<close>

text \<open>
  The state hooks of \<open>App\<close>: the factory state, the API-key error that replaces the
  whole page by an error screen, and four loading flags. \<open>alerts\<close> collects the texts
  shown by \<open>alert\<close>.
\<close>

datatype key_error_type = MISSING | INVALID | QUOTA

record app =
  state :: FactoryState
  apiKeyError :: "(key_error_type \<times> string) option"
  isResearching :: bool
  loadingOptimization :: bool
  loadingUserFlow :: bool
  loadingTechSpec :: bool
  alerts :: "string list"

definition app_init :: app where
  "app_init =
     \<lparr>state = INITIAL_STATE, apiKeyError = None, isResearching = False,
      loadingOptimization = False, loadingUserFlow = False, loadingTechSpec = False,
      alerts = []\<rparr>"

text \<open>\<open>setState(prev => f prev)\<close>.\<close>

definition setState :: "(FactoryState \<Rightarrow> FactoryState) \<Rightarrow> app \<Rightarrow> app" where
  "setState f a = a\<lparr>state := f (state a)\<rparr>"

text \<open>The effect run once after the first render; \<open>key_set\<close> is \<open>!!process.env.API_KEY\<close>.\<close>

definition mount_effect :: "bool \<Rightarrow> app \<Rightarrow> app" where
  "mount_effect key_set a =
     (if \<not> key_set
      then a\<lparr>apiKeyError := Some (MISSING, ''The API_KEY environment variable is not set.'')\<rparr>
      else a)"

text \<open>The component's own \<open>handleApiError\<close>, which reads \<open>err.message\<close>.\<close>

definition App_handleApiError :: "thrown \<Rightarrow> app \<Rightarrow> app" where
  "App_handleApiError err a =
     (if message err = Some ''INVALID_API_KEY''
      then a\<lparr>apiKeyError := Some (INVALID, ''The provided API Key is invalid or expired.'')\<rparr>
      else if message err = Some ''QUOTA_EXCEEDED''
      then a\<lparr>apiKeyError := Some (QUOTA, ''You have exceeded your API quota.'')\<rparr>
      else if message err = Some ''MISSING_API_KEY''
      then a\<lparr>apiKeyError := Some (MISSING, ''The API_KEY environment variable is not set.'')\<rparr>
      else a\<lparr>alerts := alerts a @
             [''An unexpected error occurred: '' @
                (case message err of
                   None \<Rightarrow> ''Unknown error''
                 | Some m \<Rightarrow> if m = [] then ''Unknown error'' else m)]\<rparr>)"

subsection \<open>The handlers, one definition for each piece between two awaits\<close>

text \<open>
  An async handler runs up to its \<open>await\<close>, and goes on when the promise has settled:
  \<open>_start\<close> is the first piece, \<open>_resolved\<close> the rest of the \<open>try\<close> block and
  \<open>_rejected\<close> the \<open>catch\<close> block (with the \<open>finally\<close> block after either, where
  there is one). Every update is a functional \<open>setState\<close>, applied to the state of
  the time it runs.
\<close>

definition handleAutoResearch_start :: "app \<Rightarrow> app" where
  "handleAutoResearch_start a = a\<lparr>isResearching := True\<rparr>"

definition handleAutoResearch_resolved :: "IdeaInput \<Rightarrow> app \<Rightarrow> app" where
  "handleAutoResearch_resolved trendingIdea a =
     (setState (\<lambda>prev. prev\<lparr>idea := trendingIdea\<rparr>) a)\<lparr>isResearching := False\<rparr>"

definition handleAutoResearch_rejected :: "thrown \<Rightarrow> app \<Rightarrow> app" where
  "handleAutoResearch_rejected err a = (App_handleApiError err a)\<lparr>isResearching := False\<rparr>"

text \<open>\<open>if (!state.idea.name || !state.idea.targetUser) return;\<close>\<close>

definition idea_complete :: "app \<Rightarrow> bool" where
  "idea_complete a = (name (idea (state a)) \<noteq> [] \<and> targetUser (idea (state a)) \<noteq> [])"

definition handleIdeaSubmit_start :: "app \<Rightarrow> app" where
  "handleIdeaSubmit_start a =
     setState (\<lambda>prev. prev\<lparr>currentStage := 1, radar := (radar prev)\<lparr>status := THINKING\<rparr>\<rparr>) a"

definition handleIdeaSubmit_resolved :: "json \<Rightarrow> app \<Rightarrow> app" where
  "handleIdeaSubmit_resolved r a =
     setState (\<lambda>prev. prev\<lparr>radar := \<lparr>status = COMPLETED, result = Some r\<rparr>\<rparr>) a"

definition handleIdeaSubmit_rejected :: "thrown \<Rightarrow> app \<Rightarrow> app" where
  "handleIdeaSubmit_rejected err a =
     setState (\<lambda>prev. prev\<lparr>radar := (radar prev)\<lparr>status := FAILED\<rparr>\<rparr>) (App_handleApiError err a)"

definition handleProceedToProduct_start :: "app \<Rightarrow> app" where
  "handleProceedToProduct_start a =
     setState (\<lambda>prev. prev\<lparr>currentStage := 2, product := (product prev)\<lparr>status := THINKING\<rparr>\<rparr>) a"

definition handleProceedToProduct_resolved :: "string option \<Rightarrow> app \<Rightarrow> app" where
  "handleProceedToProduct_resolved prdText a =
     setState (\<lambda>prev. prev\<lparr>product :=
        \<lparr>status = COMPLETED,
         result = Some \<lparr>prd = Some (text_or prdText []), features = Some [],
                        optimizations = None, userFlow = None, techSpec = None\<rparr>\<rparr>\<rparr>) a"

definition handleProceedToProduct_rejected :: "thrown \<Rightarrow> app \<Rightarrow> app" where
  "handleProceedToProduct_rejected err a =
     setState (\<lambda>prev. prev\<lparr>product := (product prev)\<lparr>status := FAILED\<rparr>\<rparr>) (App_handleApiError err a)"

text \<open>
  \<open>{ ...prev.product.result!, field: v }\<close>: the fields of the result, none when it is
  \<open>null\<close>, with one of them set.
\<close>

definition spread_result :: "ProductResult option \<Rightarrow> ProductResult" where
  "spread_result r =
     (case r of
        None \<Rightarrow> \<lparr>prd = None, features = None, optimizations = None, userFlow = None,
                  techSpec = None\<rparr>
      | Some x \<Rightarrow> x)"

text \<open>\<open>if (!state.product.result?.prd) return;\<close>\<close>

definition has_prd :: "app \<Rightarrow> bool" where
  "has_prd a =
     (case result (product (state a)) of
        None \<Rightarrow> False
      | Some r \<Rightarrow> (case prd r of None \<Rightarrow> False | Some t \<Rightarrow> t \<noteq> []))"

definition handleOptimizeProduct_start :: "app \<Rightarrow> app" where
  "handleOptimizeProduct_start a = a\<lparr>loadingOptimization := True\<rparr>"

definition handleOptimizeProduct_resolved :: "string option \<Rightarrow> app \<Rightarrow> app" where
  "handleOptimizeProduct_resolved optimization a =
     (setState (\<lambda>prev. prev\<lparr>product := (product prev)\<lparr>result :=
        Some ((spread_result (result (product prev)))\<lparr>optimizations := optimization\<rparr>)\<rparr>\<rparr>) a)
     \<lparr>loadingOptimization := False\<rparr>"

definition handleOptimizeProduct_rejected :: "thrown \<Rightarrow> app \<Rightarrow> app" where
  "handleOptimizeProduct_rejected e a = (App_handleApiError e a)\<lparr>loadingOptimization := False\<rparr>"

definition handleGenerateUserFlow_start :: "app \<Rightarrow> app" where
  "handleGenerateUserFlow_start a = a\<lparr>loadingUserFlow := True\<rparr>"

definition handleGenerateUserFlow_resolved :: "string \<Rightarrow> app \<Rightarrow> app" where
  "handleGenerateUserFlow_resolved flow a =
     (setState (\<lambda>prev. prev\<lparr>product := (product prev)\<lparr>result :=
        Some ((spread_result (result (product prev)))\<lparr>userFlow := Some flow\<rparr>)\<rparr>\<rparr>) a)
     \<lparr>loadingUserFlow := False\<rparr>"

definition handleGenerateUserFlow_rejected :: "thrown \<Rightarrow> app \<Rightarrow> app" where
  "handleGenerateUserFlow_rejected e a = (App_handleApiError e a)\<lparr>loadingUserFlow := False\<rparr>"

definition handleGenerateTechSpec_start :: "app \<Rightarrow> app" where
  "handleGenerateTechSpec_start a = a\<lparr>loadingTechSpec := True\<rparr>"

definition handleGenerateTechSpec_resolved :: "string option \<Rightarrow> app \<Rightarrow> app" where
  "handleGenerateTechSpec_resolved spec a =
     (setState (\<lambda>prev. prev\<lparr>product := (product prev)\<lparr>result :=
        Some ((spread_result (result (product prev)))\<lparr>techSpec := spec\<rparr>)\<rparr>\<rparr>) a)
     \<lparr>loadingTechSpec := False\<rparr>"

definition handleGenerateTechSpec_rejected :: "thrown \<Rightarrow> app \<Rightarrow> app" where
  "handleGenerateTechSpec_rejected e a = (App_handleApiError e a)\<lparr>loadingTechSpec := False\<rparr>"

definition handleProceedToTech_start :: "app \<Rightarrow> app" where
  "handleProceedToTech_start a =
     setState (\<lambda>prev. prev\<lparr>currentStage := 3, tech := (tech prev)\<lparr>status := THINKING\<rparr>\<rparr>) a"

definition handleProceedToTech_resolved :: "string option \<Rightarrow> app \<Rightarrow> app" where
  "handleProceedToTech_resolved techSpecText a =
     setState (\<lambda>prev. prev\<lparr>tech :=
        \<lparr>status = COMPLETED,
         result = Some \<lparr>stack = ''Toh Framework'', schema = [], apiSpec = [],
                        fullOutput = text_or techSpecText []\<rparr>\<rparr>\<rparr>) a"

definition handleProceedToTech_rejected :: "thrown \<Rightarrow> app \<Rightarrow> app" where
  "handleProceedToTech_rejected err a =
     setState (\<lambda>prev. prev\<lparr>tech := (tech prev)\<lparr>status := FAILED\<rparr>\<rparr>) (App_handleApiError err a)"

definition handleProceedToDev_start :: "app \<Rightarrow> app" where
  "handleProceedToDev_start a =
     setState (\<lambda>prev. prev\<lparr>currentStage := 4, dev := (dev prev)\<lparr>status := THINKING\<rparr>\<rparr>) a"

definition handleProceedToDev_resolved :: "string option \<Rightarrow> app \<Rightarrow> app" where
  "handleProceedToDev_resolved devOutput a =
     setState (\<lambda>prev. prev\<lparr>dev :=
        \<lparr>status = COMPLETED,
         result = Some \<lparr>codeStructure = text_or devOutput [], instructions = []\<rparr>\<rparr>\<rparr>) a"

definition handleProceedToDev_rejected :: "thrown \<Rightarrow> app \<Rightarrow> app" where
  "handleProceedToDev_rejected err a =
     setState (\<lambda>prev. prev\<lparr>dev := (dev prev)\<lparr>status := FAILED\<rparr>\<rparr>) (App_handleApiError err a)"

text \<open>The button of stage 4: \<open>setState(p => ({...p, currentStage: 5}))\<close>.\<close>

definition simulate_launch :: "app \<Rightarrow> app" where
  "simulate_launch a = setState (\<lambda>p. p\<lparr>currentStage := 5\<rparr>) a"

definition handleEvaluateMetrics_start :: "app \<Rightarrow> app" where
  "handleEvaluateMetrics_start a =
     setState (\<lambda>prev. prev\<lparr>qa := (qa prev)\<lparr>status := THINKING\<rparr>\<rparr>) a"

definition handleEvaluateMetrics_resolved :: "json \<Rightarrow> app \<Rightarrow> app" where
  "handleEvaluateMetrics_resolved r a =
     setState (\<lambda>prev. prev\<lparr>qa := (qa prev)\<lparr>status := COMPLETED, result := Some r\<rparr>\<rparr>) a"

definition handleEvaluateMetrics_rejected :: "thrown \<Rightarrow> app \<Rightarrow> app" where
  "handleEvaluateMetrics_rejected err a =
     setState (\<lambda>prev. prev\<lparr>qa := (qa prev)\<lparr>status := FAILED\<rparr>\<rparr>) (App_handleApiError err a)"

text \<open>\<open>handleRestart\<close>; \<open>confirmed\<close> is the answer of \<open>window.confirm\<close>.\<close>

definition handleRestart :: "bool \<Rightarrow> app \<Rightarrow> app" where
  "handleRestart confirmed a =
     (if confirmed then (setState (\<lambda>_. INITIAL_STATE) a)\<lparr>apiKeyError := None\<rparr> else a)"

subsection \<open>The handlers as a whole\<close>

text \<open>
  A handler run from its call to its end, with nothing else happening in between;
  \<open>settled\<close> is what the awaited agent call settles with, \<open>Inl\<close> a rejection.
\<close>

definition handleIdeaSubmit :: "(thrown + json) \<Rightarrow> app \<Rightarrow> app" where
  "handleIdeaSubmit settled a =
     (if \<not> idea_complete a then a
      else (case settled of
              Inr r \<Rightarrow> handleIdeaSubmit_resolved r (handleIdeaSubmit_start a)
            | Inl err \<Rightarrow> handleIdeaSubmit_rejected err (handleIdeaSubmit_start a)))"

definition handleProceedToProduct :: "(thrown + string option) \<Rightarrow> app \<Rightarrow> app" where
  "handleProceedToProduct settled a =
     (case settled of
        Inr t \<Rightarrow> handleProceedToProduct_resolved t (handleProceedToProduct_start a)
      | Inl err \<Rightarrow> handleProceedToProduct_rejected err (handleProceedToProduct_start a))"

definition handleProceedToTech :: "(thrown + string option) \<Rightarrow> app \<Rightarrow> app" where
  "handleProceedToTech settled a =
     (case settled of
        Inr t \<Rightarrow> handleProceedToTech_resolved t (handleProceedToTech_start a)
      | Inl err \<Rightarrow> handleProceedToTech_rejected err (handleProceedToTech_start a))"

definition handleProceedToDev :: "(thrown + string option) \<Rightarrow> app \<Rightarrow> app" where
  "handleProceedToDev settled a =
     (case settled of
        Inr t \<Rightarrow> handleProceedToDev_resolved t (handleProceedToDev_start a)
      | Inl err \<Rightarrow> handleProceedToDev_rejected err (handleProceedToDev_start a))"

definition handleEvaluateMetrics :: "(thrown + json) \<Rightarrow> app \<Rightarrow> app" where
  "handleEvaluateMetrics settled a =
     (case settled of
        Inr r \<Rightarrow> handleEvaluateMetrics_resolved r (handleEvaluateMetrics_start a)
      | Inl err \<Rightarrow> handleEvaluateMetrics_rejected err (handleEvaluateMetrics_start a))"

subsection \<open>What the page offers\<close>

text \<open>
  The five headers of the side bar and their \<open>isActive\<close> property. The component
  builds them only when it gets past its early return for an API-key error: the error
  screen has no header.
\<close>

datatype stage = RadarStage | ProductStage | TechStage | DevStage | QAStage

fun isActive :: "stage \<Rightarrow> FactoryState \<Rightarrow> bool" where
  "isActive RadarStage s = (currentStage s = 1)"
| "isActive ProductStage s = (currentStage s = 2)"
| "isActive TechStage s = (currentStage s = 3)"
| "isActive DevStage s = (currentStage s = 4)"
| "isActive QAStage s = (currentStage s \<ge> 5)"

definition active_stages :: "app \<Rightarrow> stage list" where
  "active_stages a =
     (if apiKeyError a \<noteq> None then []
      else filter (\<lambda>st. isActive st (state a))
             [RadarStage, ProductStage, TechStage, DevStage, QAStage])"

text \<open>Truthiness of a parsed value, and \<open>value.key\<close> (the last of equal keys wins).\<close>

fun truthy :: "json \<Rightarrow> bool" where
  "truthy JNull = False"
| "truthy (JBool b) = b"
| "truthy (JNum (Num x)) = (x \<noteq> 0)"
| "truthy (JNum NaN) = False"
| "truthy (JStr t) = (t \<noteq> [])"
| "truthy (JArr xs) = True"
| "truthy (JObj kvs) = True"

fun get_field :: "json \<Rightarrow> string \<Rightarrow> json option" where
  "get_field (JObj kvs) k = map_of (rev kvs) k"
| "get_field j k = None"

text \<open>
  What can happen to the component: the user's actions, and the settling of an awaited
  call. The page is the state of one load of the application; reloading it starts the
  program anew.
\<close>

datatype event =
    Mount bool
  | EditName string | EditTargetUser string | EditPainPoint string | EditDescription string
  | AutoResearch | AutoResearchResolved IdeaInput | AutoResearchRejected thrown
  | IdeaSubmit | IdeaSubmitResolved json | IdeaSubmitRejected thrown
  | ProceedToProduct | ProceedToProductResolved "string option" | ProceedToProductRejected thrown
  | OptimizeProduct | OptimizeProductResolved "string option" | OptimizeProductRejected thrown
  | GenerateUserFlow | GenerateUserFlowResolved string | GenerateUserFlowRejected thrown
  | GenerateTechSpec | GenerateTechSpecResolved "string option" | GenerateTechSpecRejected thrown
  | ProceedToTech | ProceedToTechResolved "string option" | ProceedToTechRejected thrown
  | ProceedToDev | ProceedToDevResolved "string option" | ProceedToDevRejected thrown
  | SimulateLaunch
  | EditUsers number | EditRevenue string | EditRetention string | EditFeedback string
  | EvaluateMetrics | EvaluateMetricsResolved json | EvaluateMetricsRejected thrown
  | Restart bool

fun apply_event :: "event \<Rightarrow> app \<Rightarrow> app" where
  "apply_event (Mount k) a = mount_effect k a"
| "apply_event (EditName v) a = setState (\<lambda>p. p\<lparr>idea := (idea p)\<lparr>name := v\<rparr>\<rparr>) a"
| "apply_event (EditTargetUser v) a = setState (\<lambda>p. p\<lparr>idea := (idea p)\<lparr>targetUser := v\<rparr>\<rparr>) a"
| "apply_event (EditPainPoint v) a = setState (\<lambda>p. p\<lparr>idea := (idea p)\<lparr>painPoint := v\<rparr>\<rparr>) a"
| "apply_event (EditDescription v) a = setState (\<lambda>p. p\<lparr>idea := (idea p)\<lparr>description := v\<rparr>\<rparr>) a"
| "apply_event AutoResearch a = handleAutoResearch_start a"
| "apply_event (AutoResearchResolved i) a = handleAutoResearch_resolved i a"
| "apply_event (AutoResearchRejected e) a = handleAutoResearch_rejected e a"
| "apply_event IdeaSubmit a = (if idea_complete a then handleIdeaSubmit_start a else a)"
| "apply_event (IdeaSubmitResolved r) a = handleIdeaSubmit_resolved r a"
| "apply_event (IdeaSubmitRejected e) a = handleIdeaSubmit_rejected e a"
| "apply_event ProceedToProduct a = handleProceedToProduct_start a"
| "apply_event (ProceedToProductResolved t) a = handleProceedToProduct_resolved t a"
| "apply_event (ProceedToProductRejected e) a = handleProceedToProduct_rejected e a"
| "apply_event OptimizeProduct a = (if has_prd a then handleOptimizeProduct_start a else a)"
| "apply_event (OptimizeProductResolved t) a = handleOptimizeProduct_resolved t a"
| "apply_event (OptimizeProductRejected e) a = handleOptimizeProduct_rejected e a"
| "apply_event GenerateUserFlow a = (if has_prd a then handleGenerateUserFlow_start a else a)"
| "apply_event (GenerateUserFlowResolved t) a = handleGenerateUserFlow_resolved t a"
| "apply_event (GenerateUserFlowRejected e) a = handleGenerateUserFlow_rejected e a"
| "apply_event GenerateTechSpec a = (if has_prd a then handleGenerateTechSpec_start a else a)"
| "apply_event (GenerateTechSpecResolved t) a = handleGenerateTechSpec_resolved t a"
| "apply_event (GenerateTechSpecRejected e) a = handleGenerateTechSpec_rejected e a"
| "apply_event ProceedToTech a = handleProceedToTech_start a"
| "apply_event (ProceedToTechResolved t) a = handleProceedToTech_resolved t a"
| "apply_event (ProceedToTechRejected e) a = handleProceedToTech_rejected e a"
| "apply_event ProceedToDev a = handleProceedToDev_start a"
| "apply_event (ProceedToDevResolved t) a = handleProceedToDev_resolved t a"
| "apply_event (ProceedToDevRejected e) a = handleProceedToDev_rejected e a"
| "apply_event SimulateLaunch a = simulate_launch a"
| "apply_event (EditUsers v) a =
     setState (\<lambda>p. p\<lparr>qa := (qa p)\<lparr>metrics := (metrics (qa p))\<lparr>users := v\<rparr>\<rparr>\<rparr>) a"
| "apply_event (EditRevenue v) a =
     setState (\<lambda>p. p\<lparr>qa := (qa p)\<lparr>metrics := (metrics (qa p))\<lparr>revenue := v\<rparr>\<rparr>\<rparr>) a"
| "apply_event (EditRetention v) a =
     setState (\<lambda>p. p\<lparr>qa := (qa p)\<lparr>metrics := (metrics (qa p))\<lparr>retention := v\<rparr>\<rparr>\<rparr>) a"
| "apply_event (EditFeedback v) a =
     setState (\<lambda>p. p\<lparr>qa := (qa p)\<lparr>metrics := (metrics (qa p))\<lparr>feedback := v\<rparr>\<rparr>\<rparr>) a"
| "apply_event EvaluateMetrics a = handleEvaluateMetrics_start a"
| "apply_event (EvaluateMetricsResolved r) a = handleEvaluateMetrics_resolved r a"
| "apply_event (EvaluateMetricsRejected e) a = handleEvaluateMetrics_rejected e a"
| "apply_event (Restart c) a = handleRestart c a"

text \<open>
  When the page offers an action. With an API-key error the component returns the error
  screen, which has none of the controls. The controls of the form of stage 0 are always
  rendered and are disabled only while the research runs (the Start button also while a
  required field is empty). The container of the form gets the class
  \<open>pointer-events-none\<close> as soon as \<open>currentStage > 0\<close>; that keeps the pointer off
  the form and is no test of the stage: a control that has the focus still answers the
  keyboard. A button of a later stage is rendered under the conditions of the JSX around
  it. A settled call can arrive in any state: the calls in flight are not tracked, which
  only adds runs.
\<close>

definition page_shown :: "app \<Rightarrow> bool" where
  "page_shown a = (apiKeyError a = None)"

definition form_operable :: "app \<Rightarrow> bool" where
  "form_operable a = (page_shown a \<and> \<not> isResearching a)"

definition is_truthy_text :: "string option \<Rightarrow> bool" where
  "is_truthy_text t = (case t of None \<Rightarrow> False | Some x \<Rightarrow> x \<noteq> [])"

definition radar_shown :: "app \<Rightarrow> bool" where
  "radar_shown a =
     (currentStage (state a) \<ge> 1 \<and>
      (case result (radar (state a)) of None \<Rightarrow> False | Some r \<Rightarrow> truthy r))"

definition product_shown :: "app \<Rightarrow> bool" where
  "product_shown a = (currentStage (state a) \<ge> 2 \<and> result (product (state a)) \<noteq> None)"

fun enabled :: "app \<Rightarrow> event \<Rightarrow> bool" where
  "enabled a (Mount k) = True"
| "enabled a (EditName v) = form_operable a"
| "enabled a (EditTargetUser v) = form_operable a"
| "enabled a (EditPainPoint v) = form_operable a"
| "enabled a (EditDescription v) = form_operable a"
| "enabled a AutoResearch = form_operable a"
| "enabled a IdeaSubmit = (form_operable a \<and> idea_complete a)"
| "enabled a ProceedToProduct =
     (page_shown a \<and> radar_shown a \<and> currentStage (state a) = 1 \<and>
      (case result (radar (state a)) of
         None \<Rightarrow> False
       | Some r \<Rightarrow> get_field r ''decision'' = Some (JStr ''PROCEED'')))"
| "enabled a OptimizeProduct =
     (page_shown a \<and> product_shown a \<and>
      \<not> (loadingOptimization a \<or>
         is_truthy_text (optimizations (spread_result (result (product (state a)))))))"
| "enabled a GenerateUserFlow =
     (page_shown a \<and> product_shown a \<and>
      \<not> (loadingUserFlow a \<or>
         is_truthy_text (userFlow (spread_result (result (product (state a)))))))"
| "enabled a GenerateTechSpec =
     (page_shown a \<and> product_shown a \<and>
      \<not> (loadingTechSpec a \<or>
         is_truthy_text (techSpec (spread_result (result (product (state a)))))))"
| "enabled a ProceedToTech = (page_shown a \<and> product_shown a \<and> currentStage (state a) = 2)"
| "enabled a ProceedToDev =
     (page_shown a \<and> currentStage (state a) \<ge> 3 \<and> result (tech (state a)) \<noteq> None \<and>
      currentStage (state a) = 3)"
| "enabled a SimulateLaunch =
     (page_shown a \<and> currentStage (state a) \<ge> 4 \<and> result (dev (state a)) \<noteq> None \<and>
      currentStage (state a) = 4)"
| "enabled a (EditUsers v) = (page_shown a \<and> currentStage (state a) \<ge> 5)"
| "enabled a (EditRevenue v) = (page_shown a \<and> currentStage (state a) \<ge> 5)"
| "enabled a (EditRetention v) = (page_shown a \<and> currentStage (state a) \<ge> 5)"
| "enabled a (EditFeedback v) = (page_shown a \<and> currentStage (state a) \<ge> 5)"
| "enabled a EvaluateMetrics =
     (page_shown a \<and> currentStage (state a) \<ge> 5 \<and>
      (status (qa (state a)) = IDLE \<or> status (qa (state a)) = COMPLETED))"
| "enabled a (Restart c) = page_shown a"
| "enabled a settled = True"

text \<open>A run of the component from its first render, and the states it passes through.\<close>

fun run :: "event list \<Rightarrow> app \<Rightarrow> app option" where
  "run [] a = Some a"
| "run (e # es) a = (if enabled a e then run es (apply_event e a) else None)"

inductive reachable :: "app \<Rightarrow> bool" where
  initial: "reachable app_init"
| step: "reachable a \<Longrightarrow> enabled a e \<Longrightarrow> reachable (apply_event e a)"

subsection \<open>Runs\<close>

text \<open>
  The stage counter along a run, a state with the two required fields of the form filled
  in, one run through all the stages, and one run in which the Start button of the form is
  used again at stage 2.
\<close>

fun stage_trace :: "event list \<Rightarrow> app \<Rightarrow> int list" where
  "stage_trace [] a = [currentStage (state a)]"
| "stage_trace (e # es) a = currentStage (state a) # stage_trace es (apply_event e a)"

definition app_with_idea :: app where
  "app_with_idea =
     apply_event (EditTargetUser ''Busy cat owners'') (apply_event (EditName ''CatGroomer AI'') app_init)"

definition full_run :: "event list" where
  "full_run =
     [EditName ''CatGroomer AI'', EditTargetUser ''Busy cat owners'', IdeaSubmit,
      IdeaSubmitResolved (JObj [(''score'', JNum (Num 80)), (''decision'', JStr ''PROCEED'')]),
      ProceedToProduct, ProceedToProductResolved (Some ''prd''),
      ProceedToTech, ProceedToTechResolved (Some ''arch''),
      ProceedToDev, ProceedToDevResolved (Some ''code''),
      SimulateLaunch]"

definition back_run :: "event list" where
  "back_run =
     [EditName ''CatGroomer AI'', EditTargetUser ''Busy cat owners'', IdeaSubmit,
      IdeaSubmitResolved (JObj [(''score'', JNum (Num 80)), (''decision'', JStr ''PROCEED'')]),
      ProceedToProduct, IdeaSubmit]"

text \<open>The state after the radar call of \<open>app_with_idea\<close> was rejected for the quota.\<close>

definition app_quota_error :: app where
  "app_quota_error =
     apply_event (IdeaSubmitRejected (new_Error ''QUOTA_EXCEEDED''))
       (apply_event IdeaSubmit app_with_idea)"

text \<open>The characters that neither a fence marker nor white space contains.\<close>

definition outside_fence :: "char \<Rightarrow> bool" where
  "outside_fence c = (\<not> is_space c \<and> c \<notin> set ''```json'')"

text \<open>No stage has the status \<open>SKIPPED\<close>.\<close>

definition no_skipped :: "FactoryState \<Rightarrow> bool" where
  "no_skipped s =
     (status (radar s) \<noteq> SKIPPED \<and> status (product s) \<noteq> SKIPPED \<and> status (tech s) \<noteq> SKIPPED
      \<and> status (dev s) \<noteq> SKIPPED \<and> status (qa s) \<noteq> SKIPPED)"


text \<open>
  A response of 401 characters that breaks off inside a string, and \<open>JSON.parse\<close> on
  it, with the message of the \<open>SyntaxError\<close> in the wording of V8.
\<close>

definition truncated_response :: string where
  "truncated_response =
     ''{'' @ [CHR 0x22] @ ''reasoning'' @ [CHR 0x22] @ '': '' @ [CHR 0x22] @ replicate 386 CHR ''a''"

definition parse_truncated :: "string \<Rightarrow> string + json" where
  "parse_truncated t =
     (if t = truncated_response
      then Inl ''Unterminated string in JSON at position 401 (line 1 column 402)''
      else Inr JNull)"

section \<open>Properties of the text clean-up\<close>

text \<open>The braces, which no fence marker and no white space contains.\<close>

definition is_brace :: "char \<Rightarrow> bool" where
  "is_brace c = (c = CHR ''{'' \<or> c = CHR ''}'')"

lemma filter_replace_marker:
  "(\<And>c. P c \<Longrightarrow> \<not> is_space c \<and> c \<notin> set m) \<Longrightarrow> filter P (replace_marker m t) = filter P t"
proof (induction m t rule: replace_marker.induct)
  case (1 m)
  then show ?case by simp
next
  case (2 m c cs)
  show ?case
  proof (cases "m \<noteq> [] \<and> prefix m (c # cs)")
    case True
    then obtain r where r: "c # cs = m @ r" by (auto simp: prefix_def)
    have a: "filter P m = []" using 2(3) by (auto simp: filter_empty_conv)
    have b: "filter P (dropWhile is_space r) = filter P r"
      using 2(3) by (induction r) auto
    have "filter P (replace_marker m (c # cs)) = filter P (dropWhile is_space (drop (length m) (c # cs)))"
      using True 2(1)[OF True 2(3)] by simp
    also have "\<dots> = filter P (c # cs)" using a b unfolding r by simp
    finally show ?thesis .
  next
    case False
    then show ?thesis using 2(2)[OF False 2(3)] by auto
  qed
qed

lemma not_space_brace: "\<not> is_space CHR ''{''" "\<not> is_space CHR ''}''"
  by (simp_all add: is_space_def)

lemma brace_not_removed:
  assumes "is_brace c"
  shows "\<not> is_space c \<and> c \<notin> set ''```json''" and "\<not> is_space c \<and> c \<notin> set ''```''"
  using assms not_space_brace unfolding is_brace_def by auto

lemma filter_brace_strip_fences: "filter is_brace (strip_fences t) = filter is_brace t"
proof -
  have a: "filter is_brace (replace_marker ''```json'' t) = filter is_brace t"
    by (rule filter_replace_marker) (rule brace_not_removed)
  have b: "filter is_brace (replace_marker ''```'' (replace_marker ''```json'' t))
      = filter is_brace (replace_marker ''```json'' t)"
    by (rule filter_replace_marker) (rule brace_not_removed)
  show ?thesis unfolding strip_fences_def using a b by simp
qed

lemma filter_split:
  "filter P xs = us @ x # vs \<Longrightarrow> \<exists>as bs. xs = as @ x # bs \<and> filter P as = us \<and> filter P bs = vs"
proof (induction xs arbitrary: us)
  case Nil
  then show ?case by simp
next
  case (Cons y ys)
  show ?case
  proof (cases "P y")
    case False
    with Cons.prems have "filter P ys = us @ x # vs" by simp
    from Cons.IH[OF this] obtain as bs where "ys = as @ x # bs" "filter P as = us" "filter P bs = vs"
      by blast
    with False have "y # ys = (y # as) @ x # bs \<and> filter P (y # as) = us \<and> filter P bs = vs" by simp
    then show ?thesis by blast
  next
    case True
    show ?thesis
    proof (cases us)
      case Nil
      with True Cons.prems have "y # ys = [] @ x # ys \<and> filter P [] = us \<and> filter P ys = vs" by simp
      then show ?thesis by blast
    next
      case (Cons u us')
      with True Cons.prems have y: "y = u" and "filter P ys = us' @ x # vs" by simp_all
      from Cons.IH[OF this(2)] obtain as bs where "ys = as @ x # bs" "filter P as = us'" "filter P bs = vs"
        by blast
      with True y Cons have "y # ys = (y # as) @ x # bs \<and> filter P (y # as) = us \<and> filter P bs = vs" by simp
      then show ?thesis by blast
    qed
  qed
qed

lemma indexOf_split: "c \<notin> set pre \<Longrightarrow> indexOf (pre @ c # rest) c = int (length pre)"
  by (induction pre) (auto simp: Let_def)

lemma lastIndexOf_none: "c \<notin> set xs \<Longrightarrow> lastIndexOf xs c = -1"
  by (induction xs) (auto simp: Let_def)

lemma lastIndexOf_split: "c \<notin> set post \<Longrightarrow> lastIndexOf (pre @ c # post) c = int (length pre)"
  by (induction pre) (auto simp: Let_def lastIndexOf_none)

lemma is_brace_simps: "is_brace CHR ''{''" "is_brace CHR ''}''"
  by (simp_all add: is_brace_def)

lemma brace_order_transfer:
  assumes "filter is_brace xs = filter is_brace ys"
    and "ys = a @ CHR ''{'' # b @ CHR ''}'' # c"
  shows "\<exists>a' b' c'. xs = a' @ CHR ''{'' # b' @ CHR ''}'' # c'"
proof -
  have "filter is_brace ys =
      filter is_brace a @ CHR ''{'' # (filter is_brace b @ CHR ''}'' # filter is_brace c)"
    unfolding assms(2) by (simp add: is_brace_simps)
  with assms(1) have "filter is_brace xs =
      filter is_brace a @ CHR ''{'' # (filter is_brace b @ CHR ''}'' # filter is_brace c)"
    by (rule trans)
  from filter_split[OF this]
  obtain a' r where 1: "xs = a' @ CHR ''{'' # r"
    and 2: "filter is_brace r = filter is_brace b @ CHR ''}'' # filter is_brace c"
    by blast
  from filter_split[OF 2] obtain b' c' where 3: "r = b' @ CHR ''}'' # c'"
    by blast
  have "xs = a' @ CHR ''{'' # b' @ CHR ''}'' # c'" unfolding 1 3 by (rule refl)
  then show ?thesis by blast
qed

lemma first_last_split:
  assumes "xs = a @ x # b @ y # c"
  shows "\<exists>p mid q. xs = p @ x # mid @ y # q \<and> x \<notin> set p \<and> y \<notin> set q"
proof -
  have "x \<in> set xs" using assms by simp
  then obtain p r where p: "xs = p @ x # r" "x \<notin> set p" by (meson split_list_first)
  have "y \<in> set (b @ y # c)" by simp
  then obtain s q where q: "b @ y # c = s @ y # q" "y \<notin> set q" by (meson split_list_last)
  have le: "length p \<le> length a"
  proof (rule ccontr)
    assume "\<not> length p \<le> length a"
    then have l: "length a < length p" by simp
    have "xs ! length a = x" using assms by simp
    moreover have "xs ! length a = p ! length a" using p l by (simp add: nth_append)
    ultimately have "x \<in> set p" using l by (metis nth_mem)
    with p show False by simp
  qed
  have "p @ x # r = a @ x # s @ y # q" using p assms q by simp
  then obtain t where "a = p @ t" "x # r = t @ x # s @ y # q"
    using le by (auto simp: append_eq_append_conv2 append_eq_Cons_conv) 
  then obtain mid where "r = mid @ y # q"
    by (cases t) auto
  with p q show ?thesis by blast
qed

lemma cleanJsonString_extract:
  assumes "clean = p @ CHR ''{'' # mid @ CHR ''}'' # q" "CHR ''{'' \<notin> set p" "CHR ''}'' \<notin> set q"
  shows "indexOf clean CHR ''{'' = int (length p)"
    and "lastIndexOf clean CHR ''}'' = int (length p + 1 + length mid)"
    and "substring clean (int (length p)) (int (length p + 1 + length mid) + 1) = CHR ''{'' # mid @ [CHR ''}'']"
proof -
  show "indexOf clean CHR ''{'' = int (length p)" using assms by (simp add: indexOf_split)
  have "clean = (p @ CHR ''{'' # mid) @ CHR ''}'' # q" using assms by simp
  then have "lastIndexOf clean CHR ''}'' = int (length (p @ CHR ''{'' # mid))"
    using assms(3) lastIndexOf_split by blast
  then show "lastIndexOf clean CHR ''}'' = int (length p + 1 + length mid)" by simp
  have n: "nat (2 + int (length mid)) = Suc (Suc (length mid))" by simp
  show "substring clean (int (length p)) (int (length p + 1 + length mid) + 1) = CHR ''{'' # mid @ [CHR ''}'']"
    unfolding substring_def assms(1) by (simp add: Let_def min_def max_def n)
qed

lemma cleanJsonString_braces:
  assumes "i < j" "j < length t" "t ! i = CHR ''{''" "t ! j = CHR ''}''"
  shows "\<exists>pre post. strip_fences t = pre @ cleanJsonString t @ post
           \<and> CHR ''{'' \<notin> set pre \<and> CHR ''}'' \<notin> set post
           \<and> hd (cleanJsonString t) = CHR ''{'' \<and> last (cleanJsonString t) = CHR ''}''
           \<and> cleanJsonString t =
               substring (strip_fences t) (indexOf (strip_fences t) CHR ''{'')
                 (lastIndexOf (strip_fences t) CHR ''}'' + 1)"
proof -
  have ne: "t \<noteq> []" using assms by auto
  define a where "a = take i t"
  define r where "r = drop (Suc i) t"
  define b where "b = take (j - Suc i) r"
  define c where "c = drop (Suc (j - Suc i)) r"
  have i: "i < length t" using assms by simp
  have 1: "t = a @ CHR ''{'' # r"
    unfolding a_def r_def using id_take_nth_drop[OF i] assms(3) by simp
  have j: "j - Suc i < length r" unfolding r_def using assms by simp
  have "r ! (j - Suc i) = CHR ''}''" unfolding r_def using assms by simp
  then have 2: "r = b @ CHR ''}'' # c"
    unfolding b_def c_def using id_take_nth_drop[OF j] by simp
  have "t = a @ CHR ''{'' # b @ CHR ''}'' # c"
    by (subst 1, subst 2) (rule refl)
  from brace_order_transfer[OF filter_brace_strip_fences this]
  obtain a' b' c' where "strip_fences t = a' @ CHR ''{'' # b' @ CHR ''}'' # c'"
    by blast
  from first_last_split[OF this]
  obtain p mid q where s: "strip_fences t = p @ CHR ''{'' # mid @ CHR ''}'' # q"
      "CHR ''{'' \<notin> set p" "CHR ''}'' \<notin> set q"
    by blast
  note e = cleanJsonString_extract[OF s]
  have lt: "indexOf (strip_fences t) CHR ''{'' < lastIndexOf (strip_fences t) CHR ''}''"
    unfolding e(1) e(2) by simp
  have r0: "cleanJsonString t = substring (strip_fences t) (indexOf (strip_fences t) CHR ''{'')
                 (lastIndexOf (strip_fences t) CHR ''}'' + 1)"
    unfolding cleanJsonString_def Let_def using ne lt e(1) e(2) by simp
  have r: "cleanJsonString t = CHR ''{'' # mid @ [CHR ''}'']"
    unfolding r0 e(1) e(2) by (rule e(3))
  have 1: "strip_fences t = p @ cleanJsonString t @ q" unfolding r using s(1) by simp
  have 2: "hd (cleanJsonString t) = CHR ''{''" unfolding r by simp
  have 3: "last (cleanJsonString t) = CHR ''}''" unfolding r by simp
  show ?thesis using 1 2 3 r0 s(2,3) by blast
qed

lemma str_includes_sublist: "str_includes t n \<longleftrightarrow> sublist n t"
proof (induction t)
  case Nil
  then show ?case by auto
next
  case (Cons c cs)
  then show ?case by (simp add: sublist_Cons_right)
qed

lemma backtick_not_space: "\<not> is_space CHR 0x60"
  by (simp add: is_space_def)

lemma prefix_fence_Cons:
  "prefix ''```'' (c # cs) \<longleftrightarrow> c = CHR 0x60 \<and> prefix ''``'' cs"
  by auto

lemma replace_marker_match:
  "m \<noteq> [] \<Longrightarrow> prefix m (c # cs) \<Longrightarrow>
   replace_marker m (c # cs) = replace_marker m (dropWhile is_space (drop (length m) (c # cs)))"
  by simp

lemma replace_marker_skip:
  "\<not> prefix m (c # cs) \<Longrightarrow> replace_marker m (c # cs) = c # replace_marker m cs"
  by simp

lemma replace_fence_keeps_head:
  assumes "\<not> prefix ''``'' cs"
  shows "\<not> prefix ''``'' (replace_marker ''```'' cs)"
proof (cases cs)
  case Nil
  then show ?thesis by simp
next
  case (Cons c cs')
  with assms have nm: "\<not> prefix ''```'' (c # cs')" by (cases cs') auto
  show ?thesis
  proof (cases "c = CHR 0x60")
    case False
    with Cons replace_marker_skip[OF nm] show ?thesis by simp
  next
    case True
    show ?thesis
    proof (cases cs')
      case Nil
      with \<open>cs = c # cs'\<close> replace_marker_skip[OF nm] show ?thesis by simp
    next
      case (Cons d ds)
      with assms \<open>cs = c # cs'\<close> True have d: "d \<noteq> CHR 0x60" by auto
      then have nd: "\<not> prefix ''```'' (d # ds)" by auto
      have "replace_marker ''```'' cs = c # d # replace_marker ''```'' ds"
        using replace_marker_skip[OF nm] replace_marker_skip[OF nd] Cons \<open>cs = c # cs'\<close>
        by simp
      with d show ?thesis by auto
    qed
  qed
qed

lemma no_fence_after_replace: "\<not> sublist ''```'' (replace_marker ''```'' t)"
proof (induction "''```''" t rule: replace_marker.induct)
  case 1
  show ?case by simp
next
  case (2 c cs)
  show ?case
  proof (cases "prefix ''```'' (c # cs)")
    case True
    have e: "replace_marker ''```'' (c # cs) =
        replace_marker ''```'' (dropWhile is_space (drop (length ''```'') (c # cs)))"
      by (intro replace_marker_match[OF _ True]) simp
    have n: "\<not> sublist ''```'' (replace_marker ''```'' (dropWhile is_space (drop (length ''```'') (c # cs))))"
      by (rule 2(1)) (rule conjI, simp, rule True)
    show ?thesis unfolding e by (rule n)
  next
    case False
    then have eq: "replace_marker ''```'' (c # cs) = c # replace_marker ''```'' cs"
      by (rule replace_marker_skip)
    have ih: "\<not> sublist ''```'' (replace_marker ''```'' cs)"
      by (rule 2(2)) (use False in simp)
    have "\<not> prefix ''```'' (c # replace_marker ''```'' cs)"
    proof
      assume "prefix ''```'' (c # replace_marker ''```'' cs)"
      then have c: "c = CHR 0x60" and p: "prefix ''``'' (replace_marker ''```'' cs)"
        unfolding prefix_fence_Cons by simp_all
      from False c have "\<not> prefix ''``'' cs" unfolding prefix_fence_Cons by simp
      from replace_fence_keeps_head[OF this] p show False by blast
    qed
    with ih show ?thesis unfolding eq sublist_Cons_right by simp
  qed
qed

lemma subseq_replace_marker: "subseq (replace_marker m t) t"
proof (induction m t rule: replace_marker.induct)
  case (1 m)
  show ?case by simp
next
  case (2 m c cs)
  show ?case
  proof (cases "m \<noteq> [] \<and> prefix m (c # cs)")
    case True
    let ?r = "dropWhile is_space (drop (length m) (c # cs))"
    have "subseq (replace_marker m ?r) ?r" using 2(1) True by simp
    moreover have "suffix ?r (c # cs)"
      by (meson suffix_drop suffix_dropWhile suffix_order.trans)
    then have "subseq ?r (c # cs)" by (rule suffix_imp_subseq)
    ultimately have "subseq (replace_marker m ?r) (c # cs)" by (rule subseq_order.trans)
    with True show ?thesis by simp
  next
    case False
    then show ?thesis using 2(2) by auto
  qed
qed

lemma strip_fences_no_fence:
  "\<not> str_includes (strip_fences t) ''```''" "\<not> str_includes (strip_fences t) ''```json''"
proof -
  show a: "\<not> str_includes (strip_fences t) ''```''"
    unfolding str_includes_sublist strip_fences_def by (rule no_fence_after_replace)
  have "sublist ''```'' ''```json''" by (rule prefix_imp_sublist) simp
  then show "\<not> str_includes (strip_fences t) ''```json''"
    using a unfolding str_includes_sublist by (meson sublist_order.order.trans)
qed

lemma strip_fences_subseq: "subseq (strip_fences t) t"
  unfolding strip_fences_def
  by (meson subseq_replace_marker subseq_order.trans)

lemma cleanJsonString_sublist: "t \<noteq> [] \<Longrightarrow> sublist (cleanJsonString t) (strip_fences t)"
  unfolding cleanJsonString_def substring_def Let_def
  by (auto intro: sublist_order.order.trans[OF sublist_take sublist_drop])

lemma cleanJsonString_no_fence: "\<not> str_includes (cleanJsonString t) ''```''"
proof (cases "t = []")
  case True
  then have "cleanJsonString t = ''{}''" by (simp add: cleanJsonString_def)
  then show ?thesis by simp
next
  case False
  from cleanJsonString_sublist[OF False] strip_fences_no_fence(1)[of t]
  show ?thesis unfolding str_includes_sublist by (meson sublist_order.order.trans)
qed








lemma j_not_space: "\<not> is_space CHR ''j''"
  by (simp add: is_space_def)

lemma replace_marker_plain:
  assumes "CHR 0x60 \<notin> set b"
  shows "replace_marker (CHR 0x60 # m) (b @ r) = b @ replace_marker (CHR 0x60 # m) r"
  using assms
proof (induction b)
  case Nil
  show ?case by simp
next
  case (Cons c b)
  then have "c \<noteq> CHR 0x60" by auto
  then have "\<not> prefix (CHR 0x60 # m) (c # (b @ r))" by simp
  from replace_marker_skip[OF this] Cons show ?case by simp
qed

lemma dropWhile_all_space: "\<forall>c\<in>set w. is_space c \<Longrightarrow> dropWhile is_space (w @ r) = dropWhile is_space r"
  by (simp add: dropWhile_append2)

lemma closing_fence_json:
  assumes "\<forall>c\<in>set w. is_space c"
  shows "replace_marker ''```json'' (''```'' @ w) = ''```'' @ w"
proof -
  have nb: "CHR 0x60 \<notin> set w" using assms backtick_not_space by blast
  have w: "replace_marker ''```json'' w = w"
    using replace_marker_plain[OF nb, of "''``json''" "[]"] by simp
  have p: "\<not> prefix ''json'' w" "\<not> prefix ''`json'' w" "\<not> prefix ''``json'' w"
    using assms backtick_not_space j_not_space by (cases w; auto)+
  have 3: "replace_marker ''```json'' (CHR 0x60 # w) = CHR 0x60 # w"
    using p w by (subst replace_marker_skip) simp_all
  have 2: "replace_marker ''```json'' (CHR 0x60 # CHR 0x60 # w) = CHR 0x60 # CHR 0x60 # w"
    using p 3 by (subst replace_marker_skip) simp_all
  have 1: "replace_marker ''```json'' (CHR 0x60 # CHR 0x60 # CHR 0x60 # w) = CHR 0x60 # CHR 0x60 # CHR 0x60 # w"
    using p 2 by (subst replace_marker_skip) simp_all
  then show ?thesis by simp
qed

lemma closing_fence_plain:
  assumes "\<forall>c\<in>set w. is_space c"
  shows "replace_marker ''```'' (''```'' @ w) = []"
proof -
  have e: "replace_marker ''```'' (''```'' @ w) = replace_marker ''```'' (dropWhile is_space w)"
    using replace_marker_match[of "''```''" "CHR 0x60" "''``'' @ w"] by simp
  have z: "dropWhile is_space w = []"
    unfolding dropWhile_eq_Nil_conv using assms by blast
  show ?thesis unfolding e z by simp
qed

lemma strip_fences_json_block:
  assumes "\<forall>c\<in>set ws. is_space c" "\<forall>c\<in>set ws'. is_space c" "CHR 0x60 \<notin> set body"
    "body = [] \<or> \<not> is_space (hd body)"
  shows "strip_fences (''```json'' @ ws @ body @ ''```'' @ ws') = body"
proof -
  have d: "dropWhile is_space (ws @ body @ ''```'' @ ws') = body @ ''```'' @ ws'"
  proof (cases body)
    case Nil
    then show ?thesis using dropWhile_all_space[OF assms(1)] backtick_not_space by simp
  next
    case (Cons b bs)
    with assms(4) have "\<not> is_space b" by simp
    then show ?thesis using dropWhile_all_space[OF assms(1)] Cons by simp
  qed
  have "replace_marker ''```json'' (''```json'' @ ws @ body @ ''```'' @ ws')
      = replace_marker ''```json'' (dropWhile is_space (ws @ body @ ''```'' @ ws'))"
    using replace_marker_match[of "''```json''" "CHR 0x60" "''``json'' @ ws @ body @ ''```'' @ ws'"]
    by simp
  also have "\<dots> = body @ replace_marker ''```json'' (''```'' @ ws')"
    unfolding d using replace_marker_plain[OF assms(3)] by simp
  also have "\<dots> = body @ ''```'' @ ws'" using closing_fence_json[OF assms(2)] by simp
  finally have 1: "replace_marker ''```json'' (''```json'' @ ws @ body @ ''```'' @ ws')
      = body @ ''```'' @ ws'" .
  have "replace_marker ''```'' (body @ ''```'' @ ws') = body @ replace_marker ''```'' (''```'' @ ws')"
    using replace_marker_plain[OF assms(3)] by simp
  also have "\<dots> = body" using closing_fence_plain[OF assms(2)] by simp
  finally show ?thesis unfolding strip_fences_def 1 .
qed

lemma filter_outside_fence_strip_fences:
  "filter outside_fence (strip_fences t) = filter outside_fence t"
proof -
  have a: "filter outside_fence (replace_marker ''```json'' t) = filter outside_fence t"
    by (rule filter_replace_marker) (simp add: outside_fence_def)
  have b: "filter outside_fence (replace_marker ''```'' (replace_marker ''```json'' t))
      = filter outside_fence (replace_marker ''```json'' t)"
    by (rule filter_replace_marker) (simp add: outside_fence_def)
  show ?thesis unfolding strip_fences_def using a b by simp
qed

lemma strip_fences_no_backtick: "CHR 0x60 \<notin> set t \<Longrightarrow> strip_fences t = t"
  unfolding strip_fences_def
  using replace_marker_plain[of t "''``json''" "[]"] replace_marker_plain[of t "''``''" "[]"]
  by simp

text \<open>
  Claim C1. When the response has a \<open>{\<close> and, somewhere after it, a \<open>}\<close>, the result
  of \<open>cleanJsonString\<close> is the piece of the fence-stripped text from its first \<open>{\<close>
  through its last \<open>}\<close>: the stripped text is the result between a part without \<open>{\<close>
  and a part without \<open>}\<close>, the result begins with \<open>{\<close> and ends with \<open>}\<close>, and it is
  the \<open>substring\<close> from \<open>indexOf\<close> to \<open>lastIndexOf + 1\<close>. The fence-stripped text is
  the response without its fences: it contains neither marker, it is the response with
  characters left out, every character that is neither white space nor a character of a
  marker is kept, a response without a backtick is kept as it is, and a fenced block
  \<open>```json ... ```\<close> is stripped to its content. So the result contains no fence.
\<close>

theorem cleanJsonString_first_to_last_brace:
  assumes "i < j" "j < length t" "t ! i = CHR ''{''" "t ! j = CHR ''}''"
  shows "(\<exists>pre post. strip_fences t = pre @ cleanJsonString t @ post
           \<and> CHR ''{'' \<notin> set pre \<and> CHR ''}'' \<notin> set post
           \<and> hd (cleanJsonString t) = CHR ''{'' \<and> last (cleanJsonString t) = CHR ''}''
           \<and> cleanJsonString t =
               substring (strip_fences t) (indexOf (strip_fences t) CHR ''{'')
                 (lastIndexOf (strip_fences t) CHR ''}'' + 1))
         \<and> \<not> str_includes (strip_fences t) ''```''
         \<and> \<not> str_includes (strip_fences t) ''```json''
         \<and> subseq (strip_fences t) t
         \<and> filter outside_fence (strip_fences t) = filter outside_fence t
         \<and> (CHR 0x60 \<notin> set t \<longrightarrow> strip_fences t = t)
         \<and> ((\<forall>c\<in>set ws. is_space c) \<and> (\<forall>c\<in>set ws'. is_space c) \<and> CHR 0x60 \<notin> set block
              \<and> (block = [] \<or> \<not> is_space (hd block))
            \<longrightarrow> strip_fences (''```json'' @ ws @ block @ ''```'' @ ws') = block)
         \<and> \<not> str_includes (cleanJsonString t) ''```''"
  using cleanJsonString_braces[OF assms] strip_fences_no_fence[of t] strip_fences_subseq[of t]
    filter_outside_fence_strip_fences[of t] strip_fences_no_backtick[of t]
    strip_fences_json_block[of ws ws' block] cleanJsonString_no_fence[of t]
  by blast

theorem cleanJsonString_first_to_last_brace_witness:
  "(1::nat) < 12 \<and> 12 < length ''x{a```json b}y''
   \<and> ''x{a```json b}y'' ! 1 = CHR ''{'' \<and> ''x{a```json b}y'' ! 12 = CHR ''}''
   \<and> strip_fences ''x{a```json b}y'' = ''x{ab}y''
   \<and> cleanJsonString ''x{a```json b}y'' = ''{ab}''
   \<and> \<not> str_includes (cleanJsonString ''x{a```json b}y'') ''```''
   \<and> (4::nat) < 6 \<and> 6 < length ''ok: {a}{b}, x}y''
   \<and> ''ok: {a}{b}, x}y'' ! 4 = CHR ''{'' \<and> ''ok: {a}{b}, x}y'' ! 6 = CHR ''}''
   \<and> CHR 0x60 \<notin> set ''ok: {a}{b}, x}y''
   \<and> strip_fences ''ok: {a}{b}, x}y'' = ''ok: {a}{b}, x}y''
   \<and> cleanJsonString ''ok: {a}{b}, x}y'' = ''{a}{b}, x}''
   \<and> is_space CHR 0x0A \<and> CHR 0x60 \<notin> set ''{a}'' \<and> \<not> is_space (hd ''{a}'')
   \<and> strip_fences (''```json'' @ [CHR 0x0A] @ ''{a}'' @ ''```'' @ [CHR 0x0A]) = ''{a}''
   \<and> (\<exists>pre post. strip_fences ''x{a```json b}y'' = pre @ cleanJsonString ''x{a```json b}y'' @ post
           \<and> CHR ''{'' \<notin> set pre \<and> CHR ''}'' \<notin> set post)"
proof -
  have h: "(1::nat) < 12" "12 < length ''x{a```json b}y''"
    "''x{a```json b}y'' ! 1 = CHR ''{''" "''x{a```json b}y'' ! 12 = CHR ''}''"
    by simp_all
  have g: "(4::nat) < 6" "6 < length ''ok: {a}{b}, x}y''" "''ok: {a}{b}, x}y'' ! 4 = CHR ''{''"
    "''ok: {a}{b}, x}y'' ! 6 = CHR ''}''"
    by simp_all
  have k: "CHR 0x60 \<notin> set ''ok: {a}{b}, x}y''" "is_space CHR 0x0A"
    "\<forall>c\<in>set [CHR 0x0A]. is_space c" "CHR 0x60 \<notin> set ''{a}''" "\<not> is_space (hd ''{a}'')"
    by (simp_all add: is_space_def)
  have v: "strip_fences ''x{a```json b}y'' = ''x{ab}y''"
    "cleanJsonString ''x{a```json b}y'' = ''{ab}''"
    "cleanJsonString ''ok: {a}{b}, x}y'' = ''{a}{b}, x}''"
    by code_simp+
  from cleanJsonString_first_to_last_brace[OF h]
    cleanJsonString_first_to_last_brace[OF g, where ws = "[CHR 0x0A]" and ws' = "[CHR 0x0A]"
      and block = "''{a}''"]
    h g k v
  show ?thesis by blast
qed





section \<open>Properties of the error classifier and of the agents\<close>

lemma lower_char_not_M: "lower_char c \<noteq> CHR ''M''"
proof
  assume a: "lower_char c = CHR ''M''"
  define n where "n = (of_char c :: nat)"
  have n256: "n < 256" unfolding n_def by simp
  show False
  proof (cases "(65 \<le> n \<and> n \<le> 90) \<or> (192 \<le> n \<and> n \<le> 222 \<and> n \<noteq> 215)")
    case True
    then have "lower_char c = char_of (n + 32)"
      unfolding lower_char_def n_def[symmetric] Let_def by (simp only: if_True)
    with a have "(of_char (char_of (n + 32)) :: nat) = of_char CHR ''M''" by simp
    then have "(n + 32) mod 256 = 77" by simp
    with True n256 show False by auto
  next
    case False
    then have "lower_char c = c"
      unfolding lower_char_def n_def[symmetric] Let_def by (simp only: if_False)
    with a have "n = 77" unfolding n_def by simp
    with False show False by simp
  qed
qed

lemma toLowerCase_not_MISSING: "toLowerCase s \<noteq> ''MISSING_API_KEY''"
proof
  assume "toLowerCase s = ''MISSING_API_KEY''"
  then have "hd (map lower_char s) = CHR ''M''" "s \<noteq> []"
    unfolding toLowerCase_def by auto
  then have "lower_char (hd s) = CHR ''M''" by (simp add: hd_map)
  then show False using lower_char_not_M by blast
qed

lemma toLowerCase_digits:
  "toLowerCase ''401'' = ''401''" "toLowerCase ''403'' = ''403''" "toLowerCase ''429'' = ''429''"
  by code_simp+

lemma sublist_toLowerCase: "sublist k m \<Longrightarrow> sublist (toLowerCase k) (toLowerCase m)"
  unfolding toLowerCase_def by (rule map_mono_sublist)

lemma handleApiError_cases:
  "handleApiError error =
     (let msg = toLowerCase (case error of
                   ErrorObj n m \<Rightarrow> if m = [] then n else m
                 | Primitive s \<Rightarrow> s)
      in if sublist ''401'' msg \<or> sublist ''403'' msg \<or> sublist ''api key'' msg
            \<or> sublist ''unauthenticated'' msg
         then ErrorObj ''Error'' ''INVALID_API_KEY''
         else if sublist ''429'' msg \<or> sublist ''quota'' msg
         then ErrorObj ''Error'' ''QUOTA_EXCEEDED''
         else error)"
proof -
  have t: "error_text error =
      (case error of ErrorObj n m \<Rightarrow> if m = [] then n else m | Primitive s \<Rightarrow> s)"
    by (cases error) simp_all
  show ?thesis
    unfolding handleApiError_def Let_def str_includes_sublist new_Error_def t
    using toLowerCase_not_MISSING by simp
qed

lemma handleApiError_status_code:
  assumes "sublist ''401'' m \<or> sublist ''403'' m"
  shows "handleApiError (ErrorObj n m) = ErrorObj ''Error'' ''INVALID_API_KEY''"
    and "handleApiError (Primitive m) = ErrorObj ''Error'' ''INVALID_API_KEY''"
proof -
  from assms have ne: "m \<noteq> []" by auto
  from assms have "sublist ''401'' (toLowerCase m) \<or> sublist ''403'' (toLowerCase m)"
    using sublist_toLowerCase[of "''401''" m] sublist_toLowerCase[of "''403''" m]
    unfolding toLowerCase_digits by blast
  then show "handleApiError (ErrorObj n m) = ErrorObj ''Error'' ''INVALID_API_KEY''"
    and "handleApiError (Primitive m) = ErrorObj ''Error'' ''INVALID_API_KEY''"
    unfolding handleApiError_cases using ne by (auto simp: Let_def)
qed

lemma handleApiError_instances:
  "handleApiError (ErrorObj ''ApiError'' ''401 Unauthorized'') = ErrorObj ''Error'' ''INVALID_API_KEY''"
  "handleApiError (ErrorObj ''ApiError'' ''Forbidden (403)'') = ErrorObj ''Error'' ''INVALID_API_KEY''"
  "handleApiError (ErrorObj ''ApiError'' ''API Key not valid'') = ErrorObj ''Error'' ''INVALID_API_KEY''"
  "handleApiError (ErrorObj ''ApiError'' ''UNAUTHENTICATED'') = ErrorObj ''Error'' ''INVALID_API_KEY''"
  "handleApiError (ErrorObj ''ApiError'' ''429 Too Many Requests'') = ErrorObj ''Error'' ''QUOTA_EXCEEDED''"
  "handleApiError (ErrorObj ''ApiError'' ''Quota exceeded'') = ErrorObj ''Error'' ''QUOTA_EXCEEDED''"
  "handleApiError (ErrorObj ''ApiError'' ''quota 429 after 401'') = ErrorObj ''Error'' ''INVALID_API_KEY''"
  "handleApiError (ErrorObj ''QuotaError'' []) = ErrorObj ''Error'' ''QUOTA_EXCEEDED''"
  "handleApiError (Primitive ''HTTP 403'') = ErrorObj ''Error'' ''INVALID_API_KEY''"
  "handleApiError (ErrorObj ''TypeError'' ''Failed to fetch'') = ErrorObj ''TypeError'' ''Failed to fetch''"
  "handleApiError (ErrorObj ''Error'' ''MISSING_API_KEY'') = ErrorObj ''Error'' ''MISSING_API_KEY''"
  "handleApiError (Primitive ''timeout'') = Primitive ''timeout''"
  by code_simp+

text \<open>
  Claim C4. \<open>handleApiError\<close> looks once at the lower-cased text of the error (its
  message, its name when the message is empty, the string itself when a string was
  thrown): one of \<open>401\<close>, \<open>403\<close>, \<open>api key\<close>, \<open>unauthenticated\<close> in it gives
  \<open>INVALID_API_KEY\<close>; otherwise \<open>429\<close> or \<open>quota\<close> gives \<open>QUOTA_EXCEEDED\<close>; otherwise
  the value thrown is the error it was given. (The comparison of the lower-cased text
  with \<open>MISSING_API_KEY\<close> never holds.) A message that contains \<open>401\<close> or \<open>403\<close> is
  classified whatever else it holds, and the words are found in any case of letters.
  \<open>sublist\<close> is the library's "occurs in".
\<close>

theorem handleApiError_classifies:
  "handleApiError error =
     (let msg = toLowerCase (case error of
                   ErrorObj n m \<Rightarrow> if m = [] then n else m
                 | Primitive s \<Rightarrow> s)
      in if sublist ''401'' msg \<or> sublist ''403'' msg \<or> sublist ''api key'' msg
            \<or> sublist ''unauthenticated'' msg
         then ErrorObj ''Error'' ''INVALID_API_KEY''
         else if sublist ''429'' msg \<or> sublist ''quota'' msg
         then ErrorObj ''Error'' ''QUOTA_EXCEEDED''
         else error)
   \<and> (sublist ''401'' m \<or> sublist ''403'' m \<longrightarrow>
        handleApiError (ErrorObj n m) = ErrorObj ''Error'' ''INVALID_API_KEY''
        \<and> handleApiError (Primitive m) = ErrorObj ''Error'' ''INVALID_API_KEY'')
   \<and> handleApiError (ErrorObj ''ApiError'' ''401 Unauthorized'') = ErrorObj ''Error'' ''INVALID_API_KEY''
   \<and> handleApiError (ErrorObj ''ApiError'' ''Forbidden (403)'') = ErrorObj ''Error'' ''INVALID_API_KEY''
   \<and> handleApiError (ErrorObj ''ApiError'' ''API Key not valid'') = ErrorObj ''Error'' ''INVALID_API_KEY''
   \<and> handleApiError (ErrorObj ''ApiError'' ''UNAUTHENTICATED'') = ErrorObj ''Error'' ''INVALID_API_KEY''
   \<and> handleApiError (ErrorObj ''ApiError'' ''429 Too Many Requests'') = ErrorObj ''Error'' ''QUOTA_EXCEEDED''
   \<and> handleApiError (ErrorObj ''ApiError'' ''Quota exceeded'') = ErrorObj ''Error'' ''QUOTA_EXCEEDED''
   \<and> handleApiError (ErrorObj ''ApiError'' ''quota 429 after 401'') = ErrorObj ''Error'' ''INVALID_API_KEY''
   \<and> handleApiError (ErrorObj ''QuotaError'' []) = ErrorObj ''Error'' ''QUOTA_EXCEEDED''
   \<and> handleApiError (Primitive ''HTTP 403'') = ErrorObj ''Error'' ''INVALID_API_KEY''
   \<and> handleApiError (ErrorObj ''TypeError'' ''Failed to fetch'') = ErrorObj ''TypeError'' ''Failed to fetch''
   \<and> handleApiError (ErrorObj ''Error'' ''MISSING_API_KEY'') = ErrorObj ''Error'' ''MISSING_API_KEY''
   \<and> handleApiError (Primitive ''timeout'') = Primitive ''timeout''"
  using handleApiError_cases[of error] handleApiError_status_code[where m = m] handleApiError_instances
  by blast

theorem handleApiError_classifies_witness:
  "sublist ''401'' ''Request failed with status 401''
   \<and> handleApiError (ErrorObj ''ApiError'' ''Request failed with status 401'')
       = ErrorObj ''Error'' ''INVALID_API_KEY''
   \<and> handleApiError (Primitive ''Request failed with status 401'')
       = ErrorObj ''Error'' ''INVALID_API_KEY''"
proof -
  have h: "sublist ''401'' ''Request failed with status 401''"
    unfolding str_includes_sublist[symmetric] by code_simp
  from handleApiError_classifies[where m = "''Request failed with status 401''"
      and n = "''ApiError''"] h
  show ?thesis by blast
qed

text \<open>What the two JSON agents can throw, and when they answer with the fallback.\<close>

lemma is_key_error_new_Error:
  "is_key_error (new_Error ''INVALID_API_KEY'')" "is_key_error (new_Error ''QUOTA_EXCEEDED'')"
  "is_key_error (new_Error ''MISSING_API_KEY'')"
  by (simp_all add: is_key_error_def new_Error_def)

lemma json_catch_block_cases:
  "json_catch_block fb error =
     (if is_key_error (handleApiError error) then Inl (handleApiError error) else Inr fb)"
  by (simp add: json_catch_block_def Let_def)

lemma json_agents_throw_key_errors_only:
  "IdeaRadarAgent sv resp parse = Inl e \<Longrightarrow> is_key_error e"
  "DecisionGateAgent sv resp parse = Inl e \<Longrightarrow> is_key_error e"
  by (auto simp: IdeaRadarAgent_def DecisionGateAgent_def json_catch_block_cases
      split: sum.splits if_splits)

lemma json_agents_fallback:
  assumes "json_try_block sv resp parse = Inl error" "\<not> is_key_error (handleApiError error)"
  shows "IdeaRadarAgent sv resp parse = Inr radar_fallback"
    and "DecisionGateAgent sv resp parse = Inr decision_fallback"
  using assms by (simp_all add: IdeaRadarAgent_def DecisionGateAgent_def json_catch_block_cases)

lemma fallback_fields:
  "get_field radar_fallback ''score'' = Some (JNum (Num 0))"
  "get_field radar_fallback ''decision'' = Some (JStr ''KILL'')"
  "get_field decision_fallback ''decision'' = Some (JStr ''ITERATE'')"
  by (simp_all add: radar_fallback_def decision_fallback_def)

text \<open>
  Claim C8. A failure of \<open>JSON.parse\<close> is not always answered with the fallback: the
  \<open>catch\<close> block hands the \<open>SyntaxError\<close> to \<open>handleApiError\<close>, and a message that
  contains \<open>401\<close> (here the position of the error in the text) makes both agents throw
  \<open>INVALID_API_KEY\<close>.
\<close>

theorem json_agents_throw_on_parse_failure:
  "length truncated_response = 401
   \<and> cleanJsonString truncated_response = truncated_response
   \<and> IdeaRadarAgent \<lparr>aiInstance = False, API_KEY = Some ''key''\<rparr>
        (Inr (Some truncated_response)) parse_truncated
       = Inl (ErrorObj ''Error'' ''INVALID_API_KEY'')
   \<and> DecisionGateAgent \<lparr>aiInstance = False, API_KEY = Some ''key''\<rparr>
        (Inr (Some truncated_response)) parse_truncated
       = Inl (ErrorObj ''Error'' ''INVALID_API_KEY'')"
  by code_simp

section \<open>Properties of the component\<close>

lemmas step_defs =
  setState_def mount_effect_def App_handleApiError_def
  handleAutoResearch_start_def handleAutoResearch_resolved_def handleAutoResearch_rejected_def
  handleIdeaSubmit_start_def handleIdeaSubmit_resolved_def handleIdeaSubmit_rejected_def
  handleProceedToProduct_start_def handleProceedToProduct_resolved_def
  handleProceedToProduct_rejected_def
  handleOptimizeProduct_start_def handleOptimizeProduct_resolved_def
  handleOptimizeProduct_rejected_def
  handleGenerateUserFlow_start_def handleGenerateUserFlow_resolved_def
  handleGenerateUserFlow_rejected_def
  handleGenerateTechSpec_start_def handleGenerateTechSpec_resolved_def
  handleGenerateTechSpec_rejected_def
  handleProceedToTech_start_def handleProceedToTech_resolved_def handleProceedToTech_rejected_def
  handleProceedToDev_start_def handleProceedToDev_resolved_def handleProceedToDev_rejected_def
  simulate_launch_def
  handleEvaluateMetrics_start_def handleEvaluateMetrics_resolved_def
  handleEvaluateMetrics_rejected_def
  handleRestart_def

lemmas guard_defs =
  page_shown_def form_operable_def radar_shown_def product_shown_def idea_complete_def
  has_prd_def is_truthy_text_def

subsection \<open>The stage counter\<close>

lemma stage_range_step:
  assumes "enabled a e" "0 \<le> currentStage (state a)" "currentStage (state a) \<le> 5"
  shows "0 \<le> currentStage (state (apply_event e a)) \<and> currentStage (state (apply_event e a)) \<le> 5"
  using assms
  by (cases e) (auto simp: step_defs product_shown_def radar_shown_def INITIAL_STATE_def)

lemma stage_range_reachable: "reachable a \<Longrightarrow> 0 \<le> currentStage (state a) \<and> currentStage (state a) \<le> 5"
proof (induction rule: reachable.induct)
  case initial
  show ?case by (simp add: app_init_def INITIAL_STATE_def)
next
  case (step a e)
  from stage_range_step[OF step.hyps(2)] step.IH show ?case by blast
qed

text \<open>
  Each action that moves the pipeline on, used at its own stage, sets the counter to the
  next number; the four buttons of the later stages are offered at their own stage only.
\<close>

lemma advance_at_own_stage:
  "idea_complete a \<Longrightarrow> currentStage (state a) = 0 \<Longrightarrow>
     currentStage (state (apply_event IdeaSubmit a)) = 1"
  "enabled a ProceedToProduct \<Longrightarrow>
     currentStage (state a) = 1 \<and> currentStage (state (apply_event ProceedToProduct a)) = 2"
  "enabled a ProceedToTech \<Longrightarrow>
     currentStage (state a) = 2 \<and> currentStage (state (apply_event ProceedToTech a)) = 3"
  "enabled a ProceedToDev \<Longrightarrow>
     currentStage (state a) = 3 \<and> currentStage (state (apply_event ProceedToDev a)) = 4"
  "enabled a SimulateLaunch \<Longrightarrow>
     currentStage (state a) = 4 \<and> currentStage (state (apply_event SimulateLaunch a)) = 5"
  by (simp_all add: step_defs product_shown_def radar_shown_def)

text \<open>Every other action but a confirmed restart and the Start button keeps or raises it.\<close>

lemma stage_monotone:
  assumes "enabled a e" "e \<noteq> Restart True" "e \<noteq> IdeaSubmit"
  shows "currentStage (state a) \<le> currentStage (state (apply_event e a))"
  using assms
  by (cases e) (auto simp: step_defs product_shown_def radar_shown_def)

lemma full_run_trace:
  "run full_run app_init \<noteq> None \<and> remdups_adj (stage_trace full_run app_init) = [0, 1, 2, 3, 4, 5]"
  by (simp add: full_run_def app_init_def INITIAL_STATE_def step_defs guard_defs text_or_def)

lemma reachable_app_with_idea: "reachable app_with_idea"
proof -
  have 1: "reachable (apply_event (EditName ''CatGroomer AI'') app_init)"
    by (rule reachable.step[OF reachable.initial])
       (simp add: app_init_def INITIAL_STATE_def guard_defs)
  show ?thesis unfolding app_with_idea_def
    by (rule reachable.step[OF 1])
       (simp add: app_init_def INITIAL_STATE_def guard_defs step_defs)
qed

lemma app_with_idea_facts:
  "idea_complete app_with_idea" "currentStage (state app_with_idea) = 0"
  "enabled app_with_idea IdeaSubmit"
  by (simp_all add: app_with_idea_def app_init_def INITIAL_STATE_def guard_defs step_defs)

lemma reachable_submitted: "reachable (apply_event IdeaSubmit app_with_idea)"
  by (rule reachable.step[OF reachable_app_with_idea app_with_idea_facts(3)])

lemma reachable_app_quota_error: "reachable app_quota_error"
  unfolding app_quota_error_def by (rule reachable.step[OF reachable_submitted]) simp

text \<open>
  Claim C5. The stage counter does not keep to the order 0, 1, 2, 3, 4, 5. The Start
  button of the form is rendered at every stage and is disabled only for an empty field or
  a running research, and \<open>handleIdeaSubmit\<close> writes 1 whatever the stage is. In the run
  \<open>back_run\<close> every action is one the page offers and none is a restart; the counter goes
  from 0 to 1 and to 2, and the Start button, used again at stage 2, takes it back to 1.
\<close>

theorem stage_counter_lowered_by_idea_submit:
  "run back_run app_init \<noteq> None
   \<and> Restart True \<notin> set back_run
   \<and> stage_trace back_run app_init = [0, 0, 0, 1, 1, 2, 1]
   \<and> remdups_adj (stage_trace back_run app_init) = [0, 1, 2, 1]"
  by (simp add: back_run_def app_init_def INITIAL_STATE_def step_defs guard_defs text_or_def)

subsection \<open>The active stage\<close>

lemma active_stages_by_counter:
  "active_stages a =
     (if apiKeyError a \<noteq> None then []
      else if currentStage (state a) = 1 then [RadarStage]
      else if currentStage (state a) = 2 then [ProductStage]
      else if currentStage (state a) = 3 then [TechStage]
      else if currentStage (state a) = 4 then [DevStage]
      else if currentStage (state a) \<ge> 5 then [QAStage]
      else [])"
  by (simp add: active_stages_def)

lemma app_quota_error_facts:
  "apiKeyError app_quota_error = Some (QUOTA, ''You have exceeded your API quota.'')"
  "currentStage (state app_quota_error) = 1"
  using app_with_idea_facts
  by (simp_all add: app_quota_error_def step_defs new_Error_def)

text \<open>
  Claim C3, amended. In every reachable state the stage counter is one of 0 to 5, and
  the active stages are those the counter selects among the headers the page shows: none
  while the counter is 0 (the state of the first render, where the form is shown), none
  while an API-key error puts the error screen in place of the page, and exactly one
  otherwise. In no state at all are two stages active.
\<close>

theorem active_stage_selected_by_counter:
  "reachable a \<Longrightarrow>
     length (active_stages b) \<le> 1
     \<and> (apiKeyError a \<noteq> None \<longrightarrow> active_stages a = [])
     \<and> (apiKeyError a = None \<longrightarrow>
          (currentStage (state a) = 0 \<and> active_stages a = [])
        \<or> (currentStage (state a) = 1 \<and> active_stages a = [RadarStage])
        \<or> (currentStage (state a) = 2 \<and> active_stages a = [ProductStage])
        \<or> (currentStage (state a) = 3 \<and> active_stages a = [TechStage])
        \<or> (currentStage (state a) = 4 \<and> active_stages a = [DevStage])
        \<or> (currentStage (state a) = 5 \<and> active_stages a = [QAStage]))"
proof -
  assume "reachable a"
  then have r: "0 \<le> currentStage (state a) \<and> currentStage (state a) \<le> 5"
    by (rule stage_range_reachable)
  have l: "length (active_stages b) \<le> 1" by (simp add: active_stages_by_counter)
  from r have "currentStage (state a) = 0 \<or> currentStage (state a) = 1
      \<or> currentStage (state a) = 2 \<or> currentStage (state a) = 3
      \<or> currentStage (state a) = 4 \<or> currentStage (state a) = 5"
    by arith
  then show ?thesis using l by (auto simp: active_stages_by_counter)
qed

theorem active_stage_selected_by_counter_witness:
  "reachable (apply_event IdeaSubmit app_with_idea)
   \<and> apiKeyError (apply_event IdeaSubmit app_with_idea) = None
   \<and> currentStage (state (apply_event IdeaSubmit app_with_idea)) = 1
   \<and> active_stages (apply_event IdeaSubmit app_with_idea) = [RadarStage]
   \<and> reachable app_quota_error
   \<and> apiKeyError app_quota_error \<noteq> None
   \<and> currentStage (state app_quota_error) = 1
   \<and> active_stages app_quota_error = []"
proof -
  have 1: "currentStage (state (apply_event IdeaSubmit app_with_idea)) = 1"
    "apiKeyError (apply_event IdeaSubmit app_with_idea) = None"
    using app_with_idea_facts
    by (simp_all add: step_defs app_with_idea_def app_init_def)
  from active_stage_selected_by_counter[OF reachable_submitted]
    active_stage_selected_by_counter[OF reachable_app_quota_error]
    1 reachable_submitted reachable_app_quota_error app_quota_error_facts
  show ?thesis by auto
qed

text \<open>
  The claim as it stands fails in the state of the first render, which it names: the
  counter is 0 and none of the five stages is active. It fails on the error screen as
  well.
\<close>

theorem no_stage_active_at_first_render:
  "reachable app_init \<and> currentStage (state app_init) = 0 \<and> active_stages app_init = []
   \<and> reachable app_quota_error \<and> active_stages app_quota_error = []"
proof -
  have "currentStage (state app_init) = 0 \<and> active_stages app_init = []"
    by (simp add: app_init_def INITIAL_STATE_def active_stages_def)
  moreover have "active_stages app_quota_error = []"
    using app_quota_error_facts by (simp add: active_stages_def)
  ultimately show ?thesis using reachable.initial reachable_app_quota_error by blast
qed

subsection \<open>The stage handlers\<close>

lemmas handler_defs =
  handleIdeaSubmit_def handleProceedToProduct_def handleProceedToTech_def
  handleProceedToDev_def handleEvaluateMetrics_def

lemma App_handleApiError_state [simp]: "state (App_handleApiError err a) = state a"
  by (simp add: App_handleApiError_def)




text \<open>
  Claim C9. A stage handler, whatever its call settles with, leaves the idea and the
  slots of the other stages as they were; \<open>handleEvaluateMetrics\<close> leaves the stage
  counter and the metrics in its own slot as they were, too.
\<close>

theorem stage_handlers_frame:
  "idea (state (handleIdeaSubmit sj a)) = idea (state a)
   \<and> product (state (handleIdeaSubmit sj a)) = product (state a)
   \<and> tech (state (handleIdeaSubmit sj a)) = tech (state a)
   \<and> dev (state (handleIdeaSubmit sj a)) = dev (state a)
   \<and> qa (state (handleIdeaSubmit sj a)) = qa (state a)
   \<and> idea (state (handleProceedToProduct st a)) = idea (state a)
   \<and> radar (state (handleProceedToProduct st a)) = radar (state a)
   \<and> tech (state (handleProceedToProduct st a)) = tech (state a)
   \<and> dev (state (handleProceedToProduct st a)) = dev (state a)
   \<and> qa (state (handleProceedToProduct st a)) = qa (state a)
   \<and> idea (state (handleProceedToTech st a)) = idea (state a)
   \<and> radar (state (handleProceedToTech st a)) = radar (state a)
   \<and> product (state (handleProceedToTech st a)) = product (state a)
   \<and> dev (state (handleProceedToTech st a)) = dev (state a)
   \<and> qa (state (handleProceedToTech st a)) = qa (state a)
   \<and> idea (state (handleProceedToDev st a)) = idea (state a)
   \<and> radar (state (handleProceedToDev st a)) = radar (state a)
   \<and> product (state (handleProceedToDev st a)) = product (state a)
   \<and> tech (state (handleProceedToDev st a)) = tech (state a)
   \<and> qa (state (handleProceedToDev st a)) = qa (state a)
   \<and> currentStage (state (handleEvaluateMetrics sj a)) = currentStage (state a)
   \<and> idea (state (handleEvaluateMetrics sj a)) = idea (state a)
   \<and> radar (state (handleEvaluateMetrics sj a)) = radar (state a)
   \<and> product (state (handleEvaluateMetrics sj a)) = product (state a)
   \<and> tech (state (handleEvaluateMetrics sj a)) = tech (state a)
   \<and> dev (state (handleEvaluateMetrics sj a)) = dev (state a)
   \<and> metrics (qa (state (handleEvaluateMetrics sj a))) = metrics (qa (state a))"
  by (simp add: handler_defs step_defs split: sum.split)

text \<open>
  Claim C6. A confirmed restart puts \<open>INITIAL_STATE\<close> in place of the factory state,
  whatever it was, and clears the API-key error; \<open>INITIAL_STATE\<close> has the counter 0,
  four empty idea fields, every status \<open>IDLE\<close> with no result, and zeroed metrics.
\<close>

theorem handleRestart_resets:
  "state (handleRestart True a) = INITIAL_STATE
   \<and> apiKeyError (handleRestart True a) = None
   \<and> currentStage INITIAL_STATE = 0
   \<and> idea INITIAL_STATE = \<lparr>name = [], targetUser = [], painPoint = [], description = []\<rparr>
   \<and> radar INITIAL_STATE = \<lparr>status = IDLE, result = None\<rparr>
   \<and> product INITIAL_STATE = \<lparr>status = IDLE, result = None\<rparr>
   \<and> tech INITIAL_STATE = \<lparr>status = IDLE, result = None\<rparr>
   \<and> dev INITIAL_STATE = \<lparr>status = IDLE, result = None\<rparr>
   \<and> status (qa INITIAL_STATE) = IDLE \<and> result (qa INITIAL_STATE) = None
   \<and> metrics (qa INITIAL_STATE) = \<lparr>users = Num 0, retention = [], revenue = [], feedback = []\<rparr>
   \<and> state (handleRestart True a) = state app_init"
  by (simp add: handleRestart_def setState_def INITIAL_STATE_def app_init_def)

subsection \<open>The statuses\<close>

lemma no_skipped_step: "no_skipped (state a) \<Longrightarrow> no_skipped (state (apply_event e a))"
  by (cases e) (simp_all add: step_defs no_skipped_def INITIAL_STATE_def)

lemma no_skipped_reachable: "reachable a \<Longrightarrow> no_skipped (state a)"
proof (induction rule: reachable.induct)
  case initial
  show ?case by (simp add: app_init_def INITIAL_STATE_def no_skipped_def)
next
  case (step a e)
  then show ?case by (simp add: no_skipped_step)
qed

lemma not_skipped_cases: "x \<noteq> SKIPPED \<longleftrightarrow> x \<in> {IDLE, THINKING, COMPLETED, FAILED}"
  by (cases x) simp_all

text \<open>
  Claim C10. No update writes \<open>SKIPPED\<close>: in every reachable state the status of each
  of the five stages is \<open>IDLE\<close>, \<open>THINKING\<close>, \<open>COMPLETED\<close> or \<open>FAILED\<close>.
\<close>

theorem status_never_skipped:
  "reachable a \<Longrightarrow>
     status (radar (state a)) \<in> {IDLE, THINKING, COMPLETED, FAILED}
     \<and> status (product (state a)) \<in> {IDLE, THINKING, COMPLETED, FAILED}
     \<and> status (tech (state a)) \<in> {IDLE, THINKING, COMPLETED, FAILED}
     \<and> status (dev (state a)) \<in> {IDLE, THINKING, COMPLETED, FAILED}
     \<and> status (qa (state a)) \<in> {IDLE, THINKING, COMPLETED, FAILED}"
  using no_skipped_reachable[of a] unfolding no_skipped_def not_skipped_cases by blast

theorem status_never_skipped_witness:
  "reachable (apply_event IdeaSubmit app_with_idea)
   \<and> status (radar (state (apply_event IdeaSubmit app_with_idea))) = THINKING
   \<and> status (product (state (apply_event IdeaSubmit app_with_idea)))
       \<in> {IDLE, THINKING, COMPLETED, FAILED}"
proof -
  have 1: "status (radar (state (apply_event IdeaSubmit app_with_idea))) = THINKING"
    using app_with_idea_facts by (simp add: step_defs)
  from status_never_skipped[OF reachable_submitted] 1 reachable_submitted
  show ?thesis by blast
qed

end
